theory Spec2Isabelle
  imports Main "HOL-Library.Char_ord" "HOL-Library.List_Lexorder"
begin

section \<open>Nightlamp Bible: the local data layer\<close>

text \<open>
  A shallow embedding of \<^verbatim>\<open>js/db.js\<close> (the IndexedDB adapter), \<^verbatim>\<open>js/importKJV.js\<close>
  (the XML importer), \<^verbatim>\<open>js/providers.js\<close> (keys, chapters, bookmarks, verse styles,
  settings) and of \<^verbatim>\<open>upsertSelectedStyle\<close> of \<^verbatim>\<open>js/app.js\<close>.

  A JavaScript string is a \<^typ>\<open>string\<close>: a list of code units, here the code units
  below 256. A JavaScript number that holds an integer is an \<^typ>\<open>int\<close>.
\<close>

subsection \<open>Object stores\<close>

text \<open>
  Every object store of the schema is created with \<^verbatim>\<open>{ keyPath: "key" }\<close>: it holds at
  most one record per primary key, and a cursor or \<^verbatim>\<open>getAll\<close> visits the records in
  ascending key order (strings compare code unit by code unit). The store is the list
  of its (key, record) pairs in that order.
\<close>

type_synonym 'r object_store = "(string \<times> 'r) list"

definition os_ok :: "'r object_store \<Rightarrow> bool" where
  "os_ok s = sorted_wrt (<) (map fst s)"

text \<open>\<^verbatim>\<open>store.put(r)\<close>: insert, or replace the record with the same key.\<close>

fun os_put :: "string \<Rightarrow> 'r \<Rightarrow> 'r object_store \<Rightarrow> 'r object_store" where
  "os_put k r [] = [(k, r)]"
| "os_put k r ((k', r') # s) =
     (if k < k' then (k, r) # (k', r') # s
      else if k = k' then (k, r) # s
      else (k', r') # os_put k r s)"

text \<open>\<^verbatim>\<open>store.get(key)\<close>: the record, or \<^verbatim>\<open>undefined\<close> (here \<^const>\<open>None\<close>).\<close>

definition os_get :: "string \<Rightarrow> 'r object_store \<Rightarrow> 'r option" where
  "os_get k s = map_of s k"

text \<open>\<^verbatim>\<open>store.delete(key)\<close>: succeeds whether or not the key is present.\<close>

definition os_delete :: "string \<Rightarrow> 'r object_store \<Rightarrow> 'r object_store" where
  "os_delete k s = filter (\<lambda>p. fst p \<noteq> k) s"

subsection \<open>Records and the database\<close>

text \<open>The names of \<^verbatim>\<open>STORES\<close> in \<^verbatim>\<open>db.js\<close>; the verse stores share one schema.\<close>

datatype verse_store =
  KJV_VERSES | NIV_CACHE | NIV_VERSES | ESV_VERSES | AMP_VERSES | AMPC_VERSES | NVI_ES_VERSES

datatype store_name = VERSES verse_store | BOOKMARKS | VERSE_STYLES | SETTINGS

datatype tx_mode = Readonly | Readwrite

record verse_row =
  v_key :: string
  v_book :: string
  v_chapter :: int
  v_verse :: int
  v_text :: string

record bookmark_row =
  b_key :: string
  b_translation :: string
  b_book :: string
  b_chapter :: int
  b_savedAt :: int

record style_row =
  st_key :: string
  st_translation :: string
  st_book :: string
  st_chapter :: int
  st_verse :: int
  st_color :: string
  st_underline :: bool
  st_bold :: bool
  st_bookmarked :: bool
  st_note :: string
  st_noteType :: string
  st_noteFavorite :: bool
  st_updatedAt :: "int option"

record setting_row =
  s_key :: string
  s_value :: string

text \<open>
  The database: the contents of each store, and the transactions opened so far
  (\<^verbatim>\<open>storeTx\<close> opens one per call, on one store). The engine completes every
  request: the \<^verbatim>\<open>onerror\<close> handlers, which pass the engine's own failures on, have no
  branch here.
\<close>

record db =
  verses :: "verse_store \<Rightarrow> verse_row object_store"
  bookmarks :: "bookmark_row object_store"
  verse_styles :: "style_row object_store"
  settings :: "setting_row object_store"
  tx_log :: "(store_name \<times> tx_mode) list"

text \<open>The database right after the schema is created: every store is empty.\<close>

definition fresh_db :: db where
  "fresh_db = \<lparr>verses = (\<lambda>_. []), bookmarks = [], verse_styles = [], settings = [],
     tx_log = []\<rparr>"

definition storeTx :: "db \<Rightarrow> store_name \<Rightarrow> tx_mode \<Rightarrow> db" where
  "storeTx d n m = d\<lparr>tx_log := tx_log d @ [(n, m)]\<rparr>"

text \<open>
  \<^verbatim>\<open>putOne\<close>, \<^verbatim>\<open>getOne\<close> and \<^verbatim>\<open>deleteOne\<close> of \<^verbatim>\<open>db.js\<close> take the store's name; the
  embedding has one instance for each store the providers call them on.
  \<^verbatim>\<open>getOne\<close> resolves with \<^verbatim>\<open>req.result || null\<close>: a record is an object, hence truthy,
  and \<^const>\<open>None\<close> stands for \<^verbatim>\<open>null\<close>.
\<close>

definition putOne_settings :: "db \<Rightarrow> setting_row \<Rightarrow> db" where
  "putOne_settings d row =
     (storeTx d SETTINGS Readwrite)\<lparr>settings := os_put (s_key row) row (settings d)\<rparr>"

definition getOne_settings :: "db \<Rightarrow> string \<Rightarrow> setting_row option \<times> db" where
  "getOne_settings d k = (os_get k (settings d), storeTx d SETTINGS Readonly)"

subsection \<open>Settings (providers.js)\<close>

definition saveSetting :: "db \<Rightarrow> string \<Rightarrow> string \<Rightarrow> db" where
  "saveSetting d k v = putOne_settings d \<lparr>s_key = k, s_value = v\<rparr>"

text \<open>\<^verbatim>\<open>row ? row.value : null\<close>\<close>

definition loadSetting :: "db \<Rightarrow> string \<Rightarrow> string option \<times> db" where
  "loadSetting d k =
     (case getOne_settings d k of
        (None, d') \<Rightarrow> (None, d')
      | (Some row, d') \<Rightarrow> (Some (s_value row), d'))"

text \<open>A run of \<^const>\<open>saveSetting\<close> calls, one after the other.\<close>

fun saveSettings :: "db \<Rightarrow> (string \<times> string) list \<Rightarrow> db" where
  "saveSettings d [] = d"
| "saveSettings d ((k, v) # kvs) = saveSettings (saveSetting d k v) kvs"

subsection \<open>Numbers in template strings\<close>

text \<open>
  \<^verbatim>\<open>`${n}`\<close> for a number that holds an integer: its decimal digits, after a minus sign
  when it is negative.
\<close>

definition digit_char :: "nat \<Rightarrow> char" where
  "digit_char n = ''0123456789'' ! n"

fun digits :: "nat \<Rightarrow> string" where
  "digits n = (if n < 10 then [digit_char n] else digits (n div 10) @ [digit_char (n mod 10)])"

declare digits.simps [simp del]

definition String_int :: "int \<Rightarrow> string" where
  "String_int i = (if i < 0 then CHR ''-'' # digits (nat (- i)) else digits (nat i))"

subsection \<open>Keys (providers.js)\<close>

definition bookmarkKey :: "string \<Rightarrow> string \<Rightarrow> int \<Rightarrow> string" where
  "bookmarkKey translation book chapter = translation @ ''|'' @ book @ ''|'' @ String_int chapter"

definition verseStyleKey :: "string \<Rightarrow> string \<Rightarrow> int \<Rightarrow> int \<Rightarrow> string" where
  "verseStyleKey translation book chapter verse =
     translation @ ''|'' @ book @ ''|'' @ String_int chapter @ ''|'' @ String_int verse"

definition verseKey :: "string \<Rightarrow> int \<Rightarrow> int \<Rightarrow> string" where
  "verseKey book chapter verse = book @ ''|'' @ String_int chapter @ ''|'' @ String_int verse"

subsection \<open>Bookmarks (providers.js)\<close>

definition getOne_bookmarks :: "db \<Rightarrow> string \<Rightarrow> bookmark_row option \<times> db" where
  "getOne_bookmarks d k = (os_get k (bookmarks d), storeTx d BOOKMARKS Readonly)"

definition putOne_bookmarks :: "db \<Rightarrow> bookmark_row \<Rightarrow> db" where
  "putOne_bookmarks d row =
     (storeTx d BOOKMARKS Readwrite)\<lparr>bookmarks := os_put (b_key row) row (bookmarks d)\<rparr>"

definition deleteOne_bookmarks :: "db \<Rightarrow> string \<Rightarrow> db" where
  "deleteOne_bookmarks d k =
     (storeTx d BOOKMARKS Readwrite)\<lparr>bookmarks := os_delete k (bookmarks d)\<rparr>"

text \<open>
  \<^verbatim>\<open>toggleBookmark(db, { translation, book, chapter })\<close>; \<open>now\<close> is what \<^verbatim>\<open>Date.now()\<close>
  returns. The result is \<^verbatim>\<open>true\<close> when the bookmark was added and \<^verbatim>\<open>false\<close> when it
  was removed.
\<close>

definition toggleBookmark :: "db \<Rightarrow> string \<Rightarrow> string \<Rightarrow> int \<Rightarrow> int \<Rightarrow> bool \<times> db" where
  "toggleBookmark d translation book chapter now =
     (let key = bookmarkKey translation book chapter in
      case getOne_bookmarks d key of
        (Some existing, d1) \<Rightarrow> (False, deleteOne_bookmarks d1 key)
      | (None, d1) \<Rightarrow>
          (True, putOne_bookmarks d1
             \<lparr>b_key = key, b_translation = translation, b_book = book, b_chapter = chapter,
              b_savedAt = now\<rparr>))"

text \<open>
  A run of toggles, each with its translation, book, chapter and clock reading: the
  reports in order, and the database after the last one.
\<close>

fun toggleBookmarks :: "db \<Rightarrow> (string \<times> string \<times> int \<times> int) list \<Rightarrow> bool list \<times> db" where
  "toggleBookmarks d [] = ([], d)"
| "toggleBookmarks d ((t, b, c, now) # calls) =
     (case toggleBookmark d t b c now of
        (r, d1) \<Rightarrow> (case toggleBookmarks d1 calls of (rs, d2) \<Rightarrow> (r # rs, d2)))"

text \<open>The bookmark records of a (translation, book, chapter).\<close>

definition bookmarks_of :: "db \<Rightarrow> string \<Rightarrow> string \<Rightarrow> int \<Rightarrow> bookmark_row list" where
  "bookmarks_of d t b c =
     filter (\<lambda>r. b_translation r = t \<and> b_book r = b \<and> b_chapter r = c) (map snd (bookmarks d))"

text \<open>
  What \<^const>\<open>toggleBookmark\<close>, the only writer of the store, keeps true of it: the records
  are in key order, one per key, each under the key its fields derive.
\<close>

definition bookmarks_ok :: "db \<Rightarrow> bool" where
  "bookmarks_ok d \<longleftrightarrow> os_ok (bookmarks d) \<and>
     list_all (\<lambda>(k, r). k = b_key r \<and> k = bookmarkKey (b_translation r) (b_book r) (b_chapter r))
       (bookmarks d)"

subsection \<open>Strings\<close>

text \<open>
  The white space of \<^verbatim>\<open>String.prototype.trim\<close> and of the regular expression class
  \<^verbatim>\<open>\s\<close> (the two sets are the same) among the code units below 256: tab, line feed,
  vertical tab, form feed, carriage return, space and the non-breaking space U+00A0.
\<close>

definition is_space :: "char \<Rightarrow> bool" where
  "is_space c \<longleftrightarrow>
     c \<in> set [CHR 0x09, CHR 0x0A, CHR 0x0B, CHR 0x0C, CHR 0x0D, CHR 0x20, CHR 0xA0]"

definition trimStart :: "string \<Rightarrow> string" where
  "trimStart s = dropWhile is_space s"

definition trim :: "string \<Rightarrow> string" where
  "trim s = rev (trimStart (rev (trimStart s)))"

text \<open>
  \<^verbatim>\<open>toLowerCase\<close> on the code units below 256: A to Z, and the capital letters
  U+00C0 to U+00DE except the multiplication sign U+00D7, move up by 32.
\<close>

definition toLowerCase_char :: "char \<Rightarrow> char" where
  "toLowerCase_char c =
     (let n = (of_char c :: nat) in
      if (65 \<le> n \<and> n \<le> 90) \<or> (192 \<le> n \<and> n \<le> 222 \<and> n \<noteq> 215) then char_of (n + 32) else c)"

definition toLowerCase :: "string \<Rightarrow> string" where
  "toLowerCase s = map toLowerCase_char s"

text \<open>\<^verbatim>\<open>text.includes(q)\<close>: \<open>q\<close> occurs in \<open>text\<close> at some position.\<close>

fun str_includes :: "string \<Rightarrow> string \<Rightarrow> bool" where
  "str_includes [] q = (q = [])"
| "str_includes (c # cs) q = (take (length q) (c # cs) = q \<or> str_includes cs q)"

subsection \<open>Search (db.js)\<close>

text \<open>\<^verbatim>\<open>query || ""\<close>, for a query that is a string, \<^verbatim>\<open>null\<close> or \<^verbatim>\<open>undefined\<close>.\<close>

definition query_text :: "string option \<Rightarrow> string" where
  "query_text query = (case query of None \<Rightarrow> [] | Some s \<Rightarrow> s)"

text \<open>
  The cursor's \<^verbatim>\<open>onsuccess\<close> handler, once per record in key order and once more at
  the end: it resolves with the hits when the cursor is exhausted or the hits have
  reached the limit, and otherwise tests the record and continues.
\<close>

fun cursor_scan :: "string \<Rightarrow> int \<Rightarrow> verse_row list \<Rightarrow> verse_row list \<Rightarrow> verse_row list" where
  "cursor_scan q limit hits [] = hits"
| "cursor_scan q limit hits (v # rest) =
     (if limit \<le> int (length hits) then hits
      else cursor_scan q limit
             (if str_includes (toLowerCase (v_text v)) q then hits @ [v] else hits) rest)"

definition searchTextCursor ::
    "db \<Rightarrow> verse_store \<Rightarrow> string option \<Rightarrow> int \<Rightarrow> verse_row list \<times> db" where
  "searchTextCursor d storeName query limit =
     (let q = toLowerCase (trim (query_text query)) in
      if q = [] then ([], d)
      else (cursor_scan q limit [] (map snd (verses d storeName)),
            storeTx d (VERSES storeName) Readonly))"

subsection \<open>A small verse store\<close>

definition example_verses :: "verse_row object_store" where
  "example_verses =
     [(''Genesis|1|1'', \<lparr>v_key = ''Genesis|1|1'', v_book = ''Genesis'', v_chapter = 1, v_verse = 1,
         v_text = ''In the beginning God created the heaven and the earth.''\<rparr>),
      (''Genesis|1|2'', \<lparr>v_key = ''Genesis|1|2'', v_book = ''Genesis'', v_chapter = 1, v_verse = 2,
         v_text = ''And the earth was without form, and void.''\<rparr>),
      (''Genesis|1|3'', \<lparr>v_key = ''Genesis|1|3'', v_book = ''Genesis'', v_chapter = 1, v_verse = 3,
         v_text = ''And God said, Let there be light: and there was light.''\<rparr>)]"

definition example_db :: db where
  "example_db = fresh_db\<lparr>verses := (\<lambda>_. [])(KJV_VERSES := example_verses)\<rparr>"

subsection \<open>The parsed document\<close>

text \<open>
  What \<^verbatim>\<open>DOMParser.parseFromString(xmlText, "text/xml")\<close> returns: a tree of elements
  (name, attributes, children), text (character data, CDATA sections) and nodes that
  carry no text content (comments, processing instructions). A document is its root
  element. A text that is not well-formed parses to a document that holds a
  \<^verbatim>\<open>parsererror\<close> element.
\<close>

datatype node =
  Element string "(string \<times> string) list" "node list"
| Text string
| Comment string

text \<open>\<^verbatim>\<open>node.getAttribute(name)\<close>: the value, or \<^verbatim>\<open>null\<close>.\<close>

fun getAttribute :: "node \<Rightarrow> string \<Rightarrow> string option" where
  "getAttribute (Element n attrs cs) name = map_of attrs name"
| "getAttribute (Text s) name = None"
| "getAttribute (Comment s) name = None"

fun textContent :: "node \<Rightarrow> string" where
  "textContent (Element n attrs cs) = concat (map textContent cs)"
| "textContent (Text s) = s"
| "textContent (Comment s) = []"

fun is_element :: "string \<Rightarrow> node \<Rightarrow> bool" where
  "is_element name (Element n attrs cs) = (n = name)"
| "is_element name (Text s) = False"
| "is_element name (Comment s) = False"

text \<open>The elements of a tree in document order, the root first.\<close>

fun elements :: "node \<Rightarrow> node list" where
  "elements (Element n attrs cs) = Element n attrs cs # concat (map elements cs)"
| "elements (Text s) = []"
| "elements (Comment s) = []"

text \<open>\<^verbatim>\<open>xml.querySelectorAll(name)\<close> and \<^verbatim>\<open>xml.querySelector(name)\<close> on the document.\<close>

definition querySelectorAll :: "node \<Rightarrow> string \<Rightarrow> node list" where
  "querySelectorAll xml name = filter (is_element name) (elements xml)"

definition querySelector :: "node \<Rightarrow> string \<Rightarrow> node option" where
  "querySelector xml name =
     (case querySelectorAll xml name of [] \<Rightarrow> None | e # es \<Rightarrow> Some e)"

text \<open>\<^verbatim>\<open>node.querySelectorAll(":scope > name")\<close>: the direct children with that name.\<close>

fun scope_children :: "node \<Rightarrow> string \<Rightarrow> node list" where
  "scope_children (Element n attrs cs) name = filter (is_element name) cs"
| "scope_children (Text s) name = []"
| "scope_children (Comment s) name = []"

subsection \<open>Numbers read from attributes\<close>

text \<open>
  \<^verbatim>\<open>Number(node.getAttribute("number"))\<close>. \<^verbatim>\<open>Number(null)\<close> is 0; a string is trimmed
  first, the empty string is 0, and a run of decimal digits, with or without a sign, is
  that integer. The embedding covers the ordinals the source format has, integers that a
  number holds exactly: every other text is \<open>NaN\<close> here, also the fractions, exponents,
  radix prefixes and \<^verbatim>\<open>Infinity\<close> that \<^verbatim>\<open>Number\<close> reads as numbers.
\<close>

datatype jsnum = NaN | Num int

definition digit_val :: "char \<Rightarrow> nat option" where
  "digit_val c =
     (let n = (of_char c :: nat) in if 48 \<le> n \<and> n \<le> 57 then Some (n - 48) else None)"

fun parse_digits :: "nat \<Rightarrow> string \<Rightarrow> nat option" where
  "parse_digits acc [] = Some acc"
| "parse_digits acc (c # cs) =
     (case digit_val c of None \<Rightarrow> None | Some v \<Rightarrow> parse_digits (10 * acc + v) cs)"

definition Number_js :: "string option \<Rightarrow> jsnum" where
  "Number_js a =
     (case a of
        None \<Rightarrow> Num 0
      | Some s \<Rightarrow>
          (case trim s of
             [] \<Rightarrow> Num 0
           | c # cs \<Rightarrow>
               if c = CHR ''-'' \<and> cs \<noteq> [] then
                 (case parse_digits 0 cs of None \<Rightarrow> NaN | Some n \<Rightarrow> Num (- int n))
               else if c = CHR ''+'' \<and> cs \<noteq> [] then
                 (case parse_digits 0 cs of None \<Rightarrow> NaN | Some n \<Rightarrow> Num (int n))
               else
                 (case parse_digits 0 (c # cs) of None \<Rightarrow> NaN | Some n \<Rightarrow> Num (int n))))"

subsection \<open>The importer (importKJV.js)\<close>

definition BOOKS :: "string list" where
  "BOOKS =
     [''Genesis'', ''Exodus'', ''Leviticus'', ''Numbers'', ''Deuteronomy'',
      ''Joshua'', ''Judges'', ''Ruth'', ''1 Samuel'', ''2 Samuel'',
      ''1 Kings'', ''2 Kings'', ''1 Chronicles'', ''2 Chronicles'',
      ''Ezra'', ''Nehemiah'', ''Esther'', ''Job'', ''Psalms'', ''Proverbs'',
      ''Ecclesiastes'', ''Song of Solomon'', ''Isaiah'', ''Jeremiah'', ''Lamentations'',
      ''Ezekiel'', ''Daniel'', ''Hosea'', ''Joel'', ''Amos'', ''Obadiah'', ''Jonah'', ''Micah'',
      ''Nahum'', ''Habakkuk'', ''Zephaniah'', ''Haggai'', ''Zechariah'', ''Malachi'',
      ''Matthew'', ''Mark'', ''Luke'', ''John'', ''Acts'', ''Romans'', ''1 Corinthians'',
      ''2 Corinthians'', ''Galatians'', ''Ephesians'', ''Philippians'', ''Colossians'',
      ''1 Thessalonians'', ''2 Thessalonians'', ''1 Timothy'', ''2 Timothy'', ''Titus'',
      ''Philemon'', ''Hebrews'', ''James'', ''1 Peter'', ''2 Peter'',
      ''1 John'', ''2 John'', ''3 John'', ''Jude'', ''Revelation'']"

text \<open>\<^verbatim>\<open>BOOKS[bookNum - 1]\<close>: a name, or \<^verbatim>\<open>undefined\<close> out of range and for \<open>NaN\<close>.\<close>

definition BOOKS_at :: "jsnum \<Rightarrow> string option" where
  "BOOKS_at bookNum =
     (case bookNum of
        NaN \<Rightarrow> None
      | Num i \<Rightarrow> if 1 \<le> i \<and> i \<le> int (length BOOKS) then Some (BOOKS ! nat (i - 1)) else None)"

text \<open>
  \<^verbatim>\<open>s.replace(/\s+/g, " ")\<close>: every maximal run of white space becomes one space. The
  flag says whether the scan is inside a run.
\<close>

fun replace_ws_runs :: "bool \<Rightarrow> string \<Rightarrow> string" where
  "replace_ws_runs in_run [] = []"
| "replace_ws_runs in_run (c # cs) =
     (if is_space c then
        (if in_run then replace_ws_runs True cs else CHR 0x20 # replace_ws_runs True cs)
      else c # replace_ws_runs False cs)"

text \<open>\<^verbatim>\<open>s.replace(/\u00A0/g, " ")\<close>\<close>

definition replace_nbsp :: "string \<Rightarrow> string" where
  "replace_nbsp s = map (\<lambda>c. if c = CHR 0xA0 then CHR 0x20 else c) s"

definition normalizeWhitespace :: "string \<Rightarrow> string" where
  "normalizeWhitespace s = trim (replace_nbsp (replace_ws_runs False s))"

text \<open>
  The three nested loops. A verse node yields no row when its number is \<open>NaN\<close> or 0 or
  its normalized text is empty; a chapter node yields none when its number is \<open>NaN\<close> or
  0; a book node yields none when \<^verbatim>\<open>BOOKS\<close> has no name for its number.
\<close>

definition verse_rows :: "string \<Rightarrow> int \<Rightarrow> node \<Rightarrow> verse_row list" where
  "verse_rows bookName chapNum verseNode =
     (let verseNum = Number_js (getAttribute verseNode ''number'');
          text = normalizeWhitespace (textContent verseNode)
      in case verseNum of
           NaN \<Rightarrow> []
         | Num v \<Rightarrow>
             if v = 0 \<or> text = [] then []
             else [\<lparr>v_key = bookName @ ''|'' @ String_int chapNum @ ''|'' @ String_int v,
                    v_book = bookName, v_chapter = chapNum, v_verse = v, v_text = text\<rparr>])"

definition chapter_rows :: "string \<Rightarrow> node \<Rightarrow> verse_row list" where
  "chapter_rows bookName chapterNode =
     (case Number_js (getAttribute chapterNode ''number'') of
        NaN \<Rightarrow> []
      | Num c \<Rightarrow>
          if c = 0 then []
          else concat (map (verse_rows bookName c) (scope_children chapterNode ''verse'')))"

definition book_rows :: "node \<Rightarrow> verse_row list" where
  "book_rows bookNode =
     (case BOOKS_at (Number_js (getAttribute bookNode ''number'')) of
        None \<Rightarrow> []
      | Some bookName \<Rightarrow>
          if bookName = [] then []
          else concat (map (chapter_rows bookName) (scope_children bookNode ''chapter'')))"

definition collect_rows :: "node \<Rightarrow> verse_row list" where
  "collect_rows xml = concat (map book_rows (querySelectorAll xml ''book''))"

text \<open>
  \<^verbatim>\<open>putMany\<close>: one read-write transaction that puts every row, in order.
  \<^verbatim>\<open>countStore\<close>: the number of records.
\<close>

definition putMany :: "db \<Rightarrow> verse_store \<Rightarrow> verse_row list \<Rightarrow> db" where
  "putMany d storeName rows =
     (storeTx d (VERSES storeName) Readwrite)
       \<lparr>verses := (verses d)
          (storeName := foldl (\<lambda>s r. os_put (v_key r) r s) (verses d storeName) rows)\<rparr>"

definition countStore :: "db \<Rightarrow> verse_store \<Rightarrow> nat \<times> db" where
  "countStore d storeName = (length (verses d storeName), storeTx d (VERSES storeName) Readonly)"

text \<open>
  What \<^verbatim>\<open>fetch(xmlUrl)\<close> settles with: a rejection, or a response with its \<^verbatim>\<open>ok\<close> flag,
  its status and the document that the parser makes of its body.
\<close>

datatype fetch_result = Rejected | Response bool nat node

text \<open>
  The errors the importer throws: the fetch rejected; \<^verbatim>\<open>"Failed to fetch Bible XML"\<close>
  with the status; \<^verbatim>\<open>"XML parse error. Your Bible XML may be malformed."\<close>;
  \<^verbatim>\<open>"Importer found 0 verses. XML structure may differ from expected."\<close>
\<close>

datatype import_error = FetchRejected | FetchFailed nat | MalformedSource | EmptySource

record import_result =
  r_verses :: nat
  r_books :: nat

text \<open>
  \<^verbatim>\<open>importBibleFromXML(xmlUrl, storeName, onProgress)\<close>, on the open database. The
  progress callback (called at every 2000th row) only reports to the user interface
  and is left out.
\<close>

definition importBibleFromXML ::
    "db \<Rightarrow> fetch_result \<Rightarrow> verse_store \<Rightarrow> (import_error + import_result) \<times> db" where
  "importBibleFromXML d res storeName =
     (case res of
        Rejected \<Rightarrow> (Inl FetchRejected, d)
      | Response ok status xml \<Rightarrow>
          if \<not> ok then (Inl (FetchFailed status), d)
          else if querySelector xml ''parsererror'' \<noteq> None then (Inl MalformedSource, d)
          else
            (let rows = collect_rows xml in
             if rows = [] then (Inl EmptySource, d)
             else (Inr \<lparr>r_verses = length rows, r_books = length (remdups (map v_book rows))\<rparr>,
                   putMany d storeName rows)))"

subsection \<open>A small source document\<close>

text \<open>
  Two books of one chapter each; Genesis 1 has three verse nodes, the last two with the
  same number; Exodus 1 has one verse, a verse without a number and an empty verse; a
  book numbered 99 has no name.
\<close>

definition example_xml :: node where
  "example_xml =
     Element ''bible'' []
       [Element ''testament'' [(''name'', ''Old'')]
          [Element ''book'' [(''number'', ''1'')]
             [Element ''chapter'' [(''number'', ''1'')]
                [Element ''verse'' [(''number'', ''1'')] [Text ''  In the   beginning ''],
                 Element ''verse'' [(''number'', ''2'')] [Text ''And the earth''],
                 Element ''verse'' [(''number'', ''2'')] [Text ''was without form'']]],
           Element ''book'' [(''number'', ''2'')]
             [Element ''chapter'' [(''number'', ''1'')]
                [Element ''verse'' [(''number'', ''1'')] [Text ''Now these are the names''],
                 Element ''verse'' [] [Text ''no number''],
                 Element ''verse'' [(''number'', ''3'')] [Text [CHR 0x20, CHR 0xA0, CHR 0x0A]]]],
           Element ''book'' [(''number'', ''99'')]
             [Element ''chapter'' [(''number'', ''1'')]
                [Element ''verse'' [(''number'', ''1'')] [Text ''unknown book'']]]]]"

text \<open>
  What every row the importer builds satisfies: its key is the one its book, chapter
  and verse derive, its book is one of \<^const>\<open>BOOKS\<close>, its chapter and verse are not 0
  and its text is not empty.
\<close>

definition row_key_ok :: "verse_row \<Rightarrow> bool" where
  "row_key_ok r \<longleftrightarrow> v_key r = verseKey (v_book r) (v_chapter r) (v_verse r)"

definition row_ok :: "verse_row \<Rightarrow> bool" where
  "row_ok r \<longleftrightarrow> row_key_ok r \<and> v_book r \<in> set BOOKS \<and> v_chapter r \<noteq> 0 \<and> v_verse r \<noteq> 0 \<and>
     v_text r \<noteq> []"


definition example_xml_malformed :: node where
  "example_xml_malformed =
     Element ''bible'' []
       [Element ''parsererror'' [] [Text ''error on line 3: mismatched tag''],
        Element ''book'' [(''number'', ''1'')]
          [Element ''chapter'' [(''number'', ''1'')]
             [Element ''verse'' [(''number'', ''1'')] [Text ''In the beginning'']]]]"

definition example_xml_no_verses :: node where
  "example_xml_no_verses =
     Element ''bible'' []
       [Element ''book'' [(''name'', ''Genesis'')]
          [Element ''chapter'' [(''number'', ''1'')]
             [Element ''verse'' [(''number'', ''1'')] [Text ''In the beginning'']]]]"

subsection \<open>Chapters (providers.js)\<close>

text \<open>
  \<^verbatim>\<open>getAllByIndex(db, storeName, "by_book_chapter", [book, chapter])\<close>: the records whose
  book and chapter are the given ones. An index lists the records of one index key in
  primary key order.
\<close>

definition getAllByIndex_by_book_chapter ::
    "db \<Rightarrow> verse_store \<Rightarrow> string \<Rightarrow> int \<Rightarrow> verse_row list \<times> db" where
  "getAllByIndex_by_book_chapter d storeName book chapter =
     (filter (\<lambda>r. v_book r = book \<and> v_chapter r = chapter) (map snd (verses d storeName)),
      storeTx d (VERSES storeName) Readonly)"

text \<open>\<^verbatim>\<open>verses.sort((a, b) => a.verse - b.verse)\<close>: a stable sort by verse number.\<close>

definition getChapterFromStore ::
    "db \<Rightarrow> verse_store \<Rightarrow> string \<Rightarrow> int \<Rightarrow> verse_row list \<times> db" where
  "getChapterFromStore d storeName book chapter =
     (case getAllByIndex_by_book_chapter d storeName book chapter of
        (vs, d1) \<Rightarrow> (sort_key v_verse vs, d1))"

text \<open>
  A verse store as the importer's writes leave it: in key order, one record per key,
  each record under its own \<^verbatim>\<open>key\<close>, which is the key its book, chapter and verse derive.
\<close>

definition verses_ok :: "verse_row object_store \<Rightarrow> bool" where
  "verses_ok s \<longleftrightarrow> os_ok s \<and> list_all (\<lambda>(k, r). k = v_key r \<and> row_key_ok r) s"

text \<open>Rows of Genesis 1 and 2, out of verse order.\<close>

definition example_genesis_rows :: "verse_row list" where
  "example_genesis_rows =
     [\<lparr>v_key = ''Genesis|1|10'', v_book = ''Genesis'', v_chapter = 1, v_verse = 10,
        v_text = ''And God called the dry land Earth''\<rparr>,
      \<lparr>v_key = ''Genesis|1|9'', v_book = ''Genesis'', v_chapter = 1, v_verse = 9,
        v_text = ''Let the waters be gathered''\<rparr>,
      \<lparr>v_key = ''Genesis|2|1'', v_book = ''Genesis'', v_chapter = 2, v_verse = 1,
        v_text = ''Thus the heavens and the earth were finished''\<rparr>,
      \<lparr>v_key = ''Genesis|1|2'', v_book = ''Genesis'', v_chapter = 1, v_verse = 2,
        v_text = ''And the earth was without form''\<rparr>]"

subsection \<open>Verse styles (providers.js)\<close>

definition putOne_verse_styles :: "db \<Rightarrow> style_row \<Rightarrow> db" where
  "putOne_verse_styles d row =
     (storeTx d VERSE_STYLES Readwrite)\<lparr>verse_styles := os_put (st_key row) row (verse_styles d)\<rparr>"

text \<open>\<^verbatim>\<open>putOne(db, stores().VERSE_STYLES, { ...style, updatedAt: Date.now() })\<close>\<close>

definition saveVerseStyle :: "db \<Rightarrow> style_row \<Rightarrow> int \<Rightarrow> db" where
  "saveVerseStyle d style now = putOne_verse_styles d (style\<lparr>st_updatedAt := Some now\<rparr>)"

text \<open>\<^verbatim>\<open>getAllByIndex(db, stores().VERSE_STYLES, "by_ref", [translation, book, chapter])\<close>\<close>

definition getAllByIndex_by_ref ::
    "db \<Rightarrow> string \<Rightarrow> string \<Rightarrow> int \<Rightarrow> style_row list \<times> db" where
  "getAllByIndex_by_ref d translation book chapter =
     (filter (\<lambda>r. st_translation r = translation \<and> st_book r = book \<and> st_chapter r = chapter)
        (map snd (verse_styles d)),
      storeTx d VERSE_STYLES Readonly)"

text \<open>The \<^verbatim>\<open>Map\<close> from each row's \<^verbatim>\<open>key\<close> to the row.\<close>

definition getStylesForChapter ::
    "db \<Rightarrow> string \<Rightarrow> string \<Rightarrow> int \<Rightarrow> (string \<rightharpoonup> style_row) \<times> db" where
  "getStylesForChapter d translation book chapter =
     (case getAllByIndex_by_ref d translation book chapter of
        (rows, d1) \<Rightarrow> (foldl (\<lambda>m r. m(st_key r \<mapsto> r)) Map.empty rows, d1))"

subsection \<open>The reader's state and the style upsert (app.js)\<close>

text \<open>A verse as the reader shows it: \<^verbatim>\<open>{ ...v, style }\<close>, the style or \<^verbatim>\<open>null\<close>.\<close>

record merged_verse = verse_row +
  m_style :: "style_row option"

text \<open>
  The fields of \<^verbatim>\<open>state\<close> that the style upsert reads or writes: the database, the
  translation, the verses of the open chapter, the styles of the open chapter by key,
  and the selected verse or \<^verbatim>\<open>null\<close>.
\<close>

record app_state =
  a_db :: db
  a_translation :: string
  a_verses :: "merged_verse list"
  a_stylesMap :: "string \<rightharpoonup> style_row"
  a_selected :: "merged_verse option"

text \<open>
  The join of \<^verbatim>\<open>openChapter\<close>: each verse with
  \<^verbatim>\<open>state.stylesMap.get(verseStyleKey(state.translation, v.book, v.chapter, v.verse)) || null\<close>.
\<close>

definition merge_styles ::
    "string \<Rightarrow> (string \<rightharpoonup> style_row) \<Rightarrow> verse_row list \<Rightarrow> merged_verse list" where
  "merge_styles translation stylesMap vs =
     map (\<lambda>v. \<lparr>v_key = v_key v, v_book = v_book v, v_chapter = v_chapter v, v_verse = v_verse v,
               v_text = v_text v,
               m_style = stylesMap (verseStyleKey translation (v_book v) (v_chapter v) (v_verse v))\<rparr>)
       vs"

text \<open>A patch names the fields it sets; the call sites set these seven.\<close>

record style_patch =
  p_color :: "string option"
  p_underline :: "bool option"
  p_bold :: "bool option"
  p_bookmarked :: "bool option"
  p_note :: "string option"
  p_noteType :: "string option"
  p_noteFavorite :: "bool option"

definition no_patch :: style_patch where
  "no_patch = \<lparr>p_color = None, p_underline = None, p_bold = None, p_bookmarked = None,
     p_note = None, p_noteType = None, p_noteFavorite = None\<rparr>"

text \<open>\<^verbatim>\<open>{ ...current, ...patch }\<close>\<close>

definition apply_patch :: "style_row \<Rightarrow> style_patch \<Rightarrow> style_row" where
  "apply_patch current patch =
     current\<lparr>st_color := (case p_color patch of None \<Rightarrow> st_color current | Some x \<Rightarrow> x),
       st_underline := (case p_underline patch of None \<Rightarrow> st_underline current | Some x \<Rightarrow> x),
       st_bold := (case p_bold patch of None \<Rightarrow> st_bold current | Some x \<Rightarrow> x),
       st_bookmarked := (case p_bookmarked patch of None \<Rightarrow> st_bookmarked current | Some x \<Rightarrow> x),
       st_note := (case p_note patch of None \<Rightarrow> st_note current | Some x \<Rightarrow> x),
       st_noteType := (case p_noteType patch of None \<Rightarrow> st_noteType current | Some x \<Rightarrow> x),
       st_noteFavorite :=
         (case p_noteFavorite patch of None \<Rightarrow> st_noteFavorite current | Some x \<Rightarrow> x)\<rparr>"

text \<open>The record the upsert starts from when the styles map has none for the key.\<close>

definition default_style :: "string \<Rightarrow> string \<Rightarrow> string \<Rightarrow> int \<Rightarrow> int \<Rightarrow> style_row" where
  "default_style key translation book chapter verse =
     \<lparr>st_key = key, st_translation = translation, st_book = book, st_chapter = chapter,
      st_verse = verse, st_color = ''none'', st_underline = False, st_bold = False,
      st_bookmarked = False, st_note = [], st_noteType = ''study'', st_noteFavorite = False,
      st_updatedAt = None\<rparr>"

text \<open>The record that the upsert builds from: the styles map's, or the default.\<close>

definition current_style :: "app_state \<Rightarrow> merged_verse \<Rightarrow> style_row" where
  "current_style st v =
     (let key = verseStyleKey (a_translation st) (v_book v) (v_chapter v) (v_verse v) in
      case a_stylesMap st key of
        Some c \<Rightarrow> c
      | None \<Rightarrow> default_style key (a_translation st) (v_book v) (v_chapter v) (v_verse v))"

text \<open>
  \<^verbatim>\<open>upsertSelectedStyle(patch)\<close>. \<open>now1\<close> is what \<^verbatim>\<open>Date.now()\<close> returns when the
  next record is built and \<open>now2\<close> what it returns in \<^const>\<open>saveVerseStyle\<close>. Without a
  selected verse the function returns at once. The rendering that follows the writes
  is left out.
\<close>

definition upsertSelectedStyle :: "app_state \<Rightarrow> style_patch \<Rightarrow> int \<Rightarrow> int \<Rightarrow> app_state" where
  "upsertSelectedStyle st patch now1 now2 =
     (case a_selected st of
        None \<Rightarrow> st
      | Some v \<Rightarrow>
          (let key = verseStyleKey (a_translation st) (v_book v) (v_chapter v) (v_verse v);
               current =
                 (case a_stylesMap st key of
                    Some c \<Rightarrow> c
                  | None \<Rightarrow> default_style key (a_translation st) (v_book v) (v_chapter v) (v_verse v));
               next = (apply_patch current patch)\<lparr>st_updatedAt := Some now1\<rparr>
           in st\<lparr>a_db := saveVerseStyle (a_db st) next now2,
                 a_stylesMap := (a_stylesMap st)(key \<mapsto> next),
                 a_verses :=
                   map (\<lambda>x. if v_book x = v_book v \<and> v_chapter x = v_chapter v \<and>
                                v_verse x = v_verse v
                             then x\<lparr>m_style := Some next\<rparr> else x)
                     (a_verses st),
                 a_selected := Some (v\<lparr>m_style := Some next\<rparr>)\<rparr>))"

text \<open>
  A reader's state: the database after the small source document was imported, Genesis 1
  open and its first verse selected.
\<close>

definition example_state :: app_state where
  "example_state =
     (let d = snd (importBibleFromXML fresh_db (Response True 200 example_xml) KJV_VERSES);
          vs = merge_styles ''KJV'' Map.empty (fst (getChapterFromStore d KJV_VERSES ''Genesis'' 1))
      in \<lparr>a_db = d, a_translation = ''KJV'', a_verses = vs, a_stylesMap = Map.empty,
           a_selected = Some (hd vs)\<rparr>)"


subsection \<open>The normal form of a verse text, as the spec words it\<close>





section \<open>Properties\<close>

subsection \<open>Object stores\<close>

lemma map_of_os_put: "map_of (os_put k r s) = (map_of s)(k \<mapsto> r)"
  by (induction s) (auto simp: fun_eq_iff)

lemma os_get_put: "os_get k' (os_put k r s) = (if k' = k then Some r else os_get k' s)"
  by (simp add: os_get_def map_of_os_put)

lemma keys_os_put: "fst ` set (os_put k r s) = insert k (fst ` set s)"
proof -
  have "fst ` set (os_put k r s) = dom (map_of (os_put k r s))"
    by (simp add: dom_map_of_conv_image_fst)
  also have "\<dots> = insert k (dom (map_of s))"
    by (simp add: map_of_os_put)
  finally show ?thesis by (simp add: dom_map_of_conv_image_fst)
qed

lemma os_ok_put: "os_ok s \<Longrightarrow> os_ok (os_put k r s)"
  unfolding os_ok_def
proof (induction s)
  case Nil
  show ?case by simp
next
  case (Cons p s)
  obtain k' r' where p: "p = (k', r')" by (cases p)
  from Cons.prems have tl: "sorted_wrt (<) (map fst s)" and hd: "\<forall>x\<in>set s. k' < fst x"
    by (auto simp: p)
  show ?case
  proof (cases "k < k'")
    case True
    with hd tl show ?thesis by (auto simp: p)
  next
    case False
    show ?thesis
    proof (cases "k = k'")
      case True
      with hd tl show ?thesis by (auto simp: p)
    next
      case neq: False
      with False have "k' < k" by simp
      moreover have "\<forall>x\<in>set (os_put k r s). k' < fst x"
      proof
        fix x assume "x \<in> set (os_put k r s)"
        then have "fst x \<in> insert k (fst ` set s)"
          using keys_os_put[of k r s] by (metis imageI)
        with hd \<open>k' < k\<close> show "k' < fst x" by auto
      qed
      ultimately show ?thesis using Cons.IH[OF tl] neq False by (simp add: p)
    qed
  qed
qed

lemma map_of_os_delete: "map_of (os_delete k s) = (map_of s)(k := None)"
  unfolding os_delete_def by (induction s) (auto simp: fun_eq_iff)

lemma os_ok_delete: "os_ok s \<Longrightarrow> os_ok (os_delete k s)"
  unfolding os_ok_def os_delete_def by (induction s) auto

lemma os_ok_distinct: "os_ok s \<Longrightarrow> distinct (map fst s)"
  unfolding os_ok_def by (simp add: strict_sorted_iff)

lemma os_ok_unique:
  assumes "os_ok s" "os_ok t" "map_of s = map_of t"
  shows "s = t"
proof -
  have ds: "distinct (map fst s)" and dt: "distinct (map fst t)"
    using assms by (simp_all add: os_ok_distinct)
  have st: "set s = set t"
    using assms(3) ds dt by (metis map_of_inject_set)
  have "inj_on fst (set s \<union> set t)"
    using ds st by (simp add: distinct_map)
  moreover have "sorted (map fst s)" "sorted (map fst t)"
    using assms by (simp_all add: os_ok_def strict_sorted_iff)
  ultimately show ?thesis
    using ds dt st by (rule_tac map_sorted_distinct_set_unique)
qed

subsection \<open>Settings\<close>

lemma settings_saveSetting:
  "settings (saveSetting d k v) = os_put k \<lparr>s_key = k, s_value = v\<rparr> (settings d)"
  by (simp add: saveSetting_def putOne_settings_def storeTx_def)

lemma loadSetting_value: "fst (loadSetting d k) = map_option s_value (os_get k (settings d))"
  by (simp add: loadSetting_def getOne_settings_def split: option.splits)

lemma loadSetting_saveSetting:
  "fst (loadSetting (saveSetting d k v) k') =
     (if k' = k then Some v else fst (loadSetting d k'))"
  by (simp add: loadSetting_value settings_saveSetting os_get_put)

lemma loadSetting_saveSettings:
  "fst (loadSetting (saveSettings d kvs) k) =
     (case map_of (rev kvs) k of Some v \<Rightarrow> Some v | None \<Rightarrow> fst (loadSetting d k))"
proof (induction kvs arbitrary: d)
  case Nil
  show ?case by simp
next
  case (Cons kv kvs)
  obtain k' v' where kv: "kv = (k', v')" by (cases kv)
  show ?case
    by (simp add: kv Cons.IH loadSetting_saveSetting map_add_def split: option.splits)
qed

text \<open>
  C10. Loading a key right after saving it returns the saved value. After any run of
  saves, loading a key returns the value of the last save to that key, and what the
  database held before when the run never saved the key. In a database whose settings
  store is empty, loading returns null.
\<close>

theorem C10_settings_roundtrip:
  "fst (loadSetting (saveSetting d k v) k) = Some v \<and>
   fst (loadSetting (saveSettings d kvs) k) =
     (case map_of (rev kvs) k of Some w \<Rightarrow> Some w | None \<Rightarrow> fst (loadSetting d k)) \<and>
   (settings d = [] \<longrightarrow> fst (loadSetting d k) = None)"
proof (intro conjI impI)
  show "fst (loadSetting (saveSetting d k v) k) = Some v"
    by (simp add: loadSetting_saveSetting)
  show "fst (loadSetting (saveSettings d kvs) k) =
     (case map_of (rev kvs) k of Some w \<Rightarrow> Some w | None \<Rightarrow> fst (loadSetting d k))"
    by (rule loadSetting_saveSettings)
  show "fst (loadSetting d k) = None" if "settings d = []"
    using that by (simp add: loadSetting_value os_get_def)
qed

theorem C10_settings_roundtrip_witness:
  "fst (loadSetting (saveSetting fresh_db ''theme'' ''dark'') ''theme'') = Some ''dark'' \<and>
   fst (loadSetting (saveSettings fresh_db
          [(''theme'', ''dark''), (''readerFontPx'', ''16''), (''theme'', ''light'')])
        ''theme'') = Some ''light'' \<and>
   settings fresh_db = [] \<and>
   fst (loadSetting fresh_db ''theme'') = None"
  using C10_settings_roundtrip [of fresh_db "''theme''" "''dark''"
      "[(''theme'', ''dark''), (''readerFontPx'', ''16''), (''theme'', ''light'')]"]
  by (simp add: fresh_db_def)

subsection \<open>Bookmarks\<close>

lemma toggle_existing:
  "os_get (bookmarkKey t b c) (bookmarks d) = Some r \<Longrightarrow>
   fst (toggleBookmark d t b c now) = False \<and>
   bookmarks (snd (toggleBookmark d t b c now)) = os_delete (bookmarkKey t b c) (bookmarks d)"
  by (simp add: toggleBookmark_def getOne_bookmarks_def deleteOne_bookmarks_def storeTx_def Let_def)

lemma toggle_absent:
  "os_get (bookmarkKey t b c) (bookmarks d) = None \<Longrightarrow>
   fst (toggleBookmark d t b c now) = True \<and>
   bookmarks (snd (toggleBookmark d t b c now)) =
     os_put (bookmarkKey t b c)
       \<lparr>b_key = bookmarkKey t b c, b_translation = t, b_book = b, b_chapter = c, b_savedAt = now\<rparr>
       (bookmarks d)"
  by (simp add: toggleBookmark_def getOne_bookmarks_def putOne_bookmarks_def storeTx_def Let_def)

lemma os_get_delete: "os_get k' (os_delete k s) = (if k' = k then None else os_get k' s)"
  by (simp add: os_get_def map_of_os_delete)

lemma set_os_put_subset: "set (os_put k r s) \<subseteq> insert (k, r) (set s)"
  by (induction s) (auto split: if_splits)

lemma set_os_delete_subset: "set (os_delete k s) \<subseteq> set s"
  by (simp add: os_delete_def)

lemma bookmarks_ok_toggle:
  assumes "bookmarks_ok d"
  shows "bookmarks_ok (snd (toggleBookmark d t b c now))"
proof (cases "os_get (bookmarkKey t b c) (bookmarks d)")
  case None
  have "list_all (\<lambda>(k, r). k = b_key r \<and> k = bookmarkKey (b_translation r) (b_book r) (b_chapter r))
     (os_put (bookmarkKey t b c)
       \<lparr>b_key = bookmarkKey t b c, b_translation = t, b_book = b, b_chapter = c, b_savedAt = now\<rparr>
       (bookmarks d))"
    using assms set_os_put_subset[of "bookmarkKey t b c" _ "bookmarks d"]
    unfolding bookmarks_ok_def list_all_iff by fastforce
  then show ?thesis
    using assms toggle_absent[OF None] by (simp add: bookmarks_ok_def os_ok_put)
next
  case (Some r)
  show ?thesis
    using assms toggle_existing[OF Some]
    using set_os_delete_subset[of "bookmarkKey t b c" "bookmarks d"]
    by (auto simp: bookmarks_ok_def os_ok_delete list_all_iff)
qed

lemma bookmarks_ok_toggles:
  "bookmarks_ok d \<Longrightarrow> bookmarks_ok (snd (toggleBookmarks d calls))"
proof (induction calls arbitrary: d)
  case Nil
  then show ?case by simp
next
  case (Cons call calls)
  obtain t b c now where call: "call = (t, b, c, now)" by (cases call) auto
  have "bookmarks_ok (snd (toggleBookmark d t b c now))"
    using Cons.prems by (rule bookmarks_ok_toggle)
  from Cons.IH[OF this] show ?case
    by (auto simp: call split: prod.splits)
qed

lemma bookmarks_ok_fresh: "bookmarks_ok fresh_db"
  by (simp add: bookmarks_ok_def fresh_db_def os_ok_def)

lemma distinct_filter_eq_le1: "distinct xs \<Longrightarrow> length (filter (\<lambda>x. x = k) xs) \<le> 1"
  by (induction xs) (auto simp: filter_empty_conv)

lemma bookmarks_ok_at_most_one:
  assumes "bookmarks_ok d"
  shows "length (bookmarks_of d t b c) \<le> 1"
proof -
  let ?P = "\<lambda>r. b_translation r = t \<and> b_book r = b \<and> b_chapter r = c"
  let ?k = "bookmarkKey t b c"
  have keys: "\<forall>p\<in>set (bookmarks d). ?P (snd p) \<longrightarrow> fst p = ?k"
    using assms unfolding bookmarks_ok_def list_all_iff by auto
  have "filter (\<lambda>p. ?P (snd p)) (bookmarks d) = filter (\<lambda>p. ?P (snd p)) (filter (\<lambda>p. fst p = ?k) (bookmarks d))"
    using keys by (auto intro: filter_cong)
  moreover have "length (filter (\<lambda>p. fst p = ?k) (bookmarks d)) \<le> 1"
  proof -
    have "distinct (map fst (bookmarks d))" using assms by (simp add: bookmarks_ok_def os_ok_distinct)
    then have "length (filter (\<lambda>x. x = ?k) (map fst (bookmarks d))) \<le> 1"
      by (rule distinct_filter_eq_le1)
    then show ?thesis by (simp add: filter_map comp_def)
  qed
  moreover have "length (filter (\<lambda>p. ?P (snd p)) (filter (\<lambda>p. fst p = ?k) (bookmarks d)))
      \<le> length (filter (\<lambda>p. fst p = ?k) (bookmarks d))"
    by (rule length_filter_le)
  ultimately have "length (filter (\<lambda>p. ?P (snd p)) (bookmarks d)) \<le> 1"
    by simp
  then show ?thesis
    by (simp add: bookmarks_of_def filter_map comp_def)
qed


lemma toggle_thrice:
  "fst (toggleBookmarks d [(t, b, c, n1), (t, b, c, n2), (t, b, c, n3)]) =
     (if os_get (bookmarkKey t b c) (bookmarks d) = None then [True, False, True]
      else [False, True, False])"
proof (cases "os_get (bookmarkKey t b c) (bookmarks d)")
  case None
  obtain d1 where d1: "toggleBookmark d t b c n1 = (True, d1)"
    and g1: "os_get (bookmarkKey t b c) (bookmarks d1) \<noteq> None"
    using toggle_absent[OF None, of n1]
    by (cases "toggleBookmark d t b c n1") (auto simp: os_get_put)
  from g1 obtain r1 where r1: "os_get (bookmarkKey t b c) (bookmarks d1) = Some r1" by auto
  obtain d2 where d2: "toggleBookmark d1 t b c n2 = (False, d2)"
    and g2: "os_get (bookmarkKey t b c) (bookmarks d2) = None"
    using toggle_existing[OF r1, of n2]
    by (cases "toggleBookmark d1 t b c n2") (auto simp: os_get_delete)
  obtain d3 where d3: "toggleBookmark d2 t b c n3 = (True, d3)"
    using toggle_absent[OF g2, of n3] by (cases "toggleBookmark d2 t b c n3") auto
  show ?thesis by (simp add: None d1 d2 d3)
next
  case (Some r0)
  obtain d1 where d1: "toggleBookmark d t b c n1 = (False, d1)"
    and g1: "os_get (bookmarkKey t b c) (bookmarks d1) = None"
    using toggle_existing[OF Some, of n1]
    by (cases "toggleBookmark d t b c n1") (auto simp: os_get_delete)
  obtain d2 where d2: "toggleBookmark d1 t b c n2 = (True, d2)"
    and g2: "os_get (bookmarkKey t b c) (bookmarks d2) \<noteq> None"
    using toggle_absent[OF g1, of n2]
    by (cases "toggleBookmark d1 t b c n2") (auto simp: os_get_put)
  from g2 obtain r2 where r2: "os_get (bookmarkKey t b c) (bookmarks d2) = Some r2" by auto
  obtain d3 where d3: "toggleBookmark d2 t b c n3 = (False, d3)"
    using toggle_existing[OF r2, of n3] by (cases "toggleBookmark d2 t b c n3") auto
  show ?thesis by (simp add: Some d1 d2 d3)
qed

text \<open>
  C5. When a bookmark exists at the derived key, the toggle deletes it and reports false
  (removed); otherwise it creates one with \<open>savedAt = now\<close> and reports true (added).
  Three toggles in a row on one (translation, book, chapter) alternate, starting with
  added when there was no bookmark. After any run of toggles from the empty database
  there is at most one bookmark record per (translation, book, chapter).
\<close>

theorem C5_toggleBookmark:
  "(os_get (bookmarkKey t b c) (bookmarks d) \<noteq> None \<longrightarrow>
      fst (toggleBookmark d t b c now) = False \<and>
      os_get (bookmarkKey t b c) (bookmarks (snd (toggleBookmark d t b c now))) = None) \<and>
   (os_get (bookmarkKey t b c) (bookmarks d) = None \<longrightarrow>
      fst (toggleBookmark d t b c now) = True \<and>
      os_get (bookmarkKey t b c) (bookmarks (snd (toggleBookmark d t b c now))) =
        Some \<lparr>b_key = bookmarkKey t b c, b_translation = t, b_book = b, b_chapter = c,
          b_savedAt = now\<rparr>) \<and>
   fst (toggleBookmarks d [(t, b, c, n1), (t, b, c, n2), (t, b, c, n3)]) =
     (if os_get (bookmarkKey t b c) (bookmarks d) = None then [True, False, True]
      else [False, True, False]) \<and>
   length (bookmarks_of (snd (toggleBookmarks fresh_db calls)) t b c) \<le> 1"
proof (intro conjI impI)
  assume "os_get (bookmarkKey t b c) (bookmarks d) \<noteq> None"
  then obtain r where r: "os_get (bookmarkKey t b c) (bookmarks d) = Some r" by auto
  from toggle_existing[OF r, of now]
  show "fst (toggleBookmark d t b c now) = False"
    and "os_get (bookmarkKey t b c) (bookmarks (snd (toggleBookmark d t b c now))) = None"
    by (simp_all add: os_get_delete)
next
  assume a: "os_get (bookmarkKey t b c) (bookmarks d) = None"
  from toggle_absent[OF a, of now]
  show "fst (toggleBookmark d t b c now) = True"
    and "os_get (bookmarkKey t b c) (bookmarks (snd (toggleBookmark d t b c now))) =
        Some \<lparr>b_key = bookmarkKey t b c, b_translation = t, b_book = b, b_chapter = c,
          b_savedAt = now\<rparr>"
    by (simp_all add: os_get_put)
next
  show "fst (toggleBookmarks d [(t, b, c, n1), (t, b, c, n2), (t, b, c, n3)]) =
     (if os_get (bookmarkKey t b c) (bookmarks d) = None then [True, False, True]
      else [False, True, False])"
    by (rule toggle_thrice)
next
  show "length (bookmarks_of (snd (toggleBookmarks fresh_db calls)) t b c) \<le> 1"
    by (intro bookmarks_ok_at_most_one bookmarks_ok_toggles bookmarks_ok_fresh)
qed

lemmas key_eval =
  bookmarkKey_def verseStyleKey_def verseKey_def String_int_def digits.simps digit_char_def

theorem C5_toggleBookmark_witness:
  "os_get (bookmarkKey ''KJV'' ''Genesis'' 1) (bookmarks fresh_db) = None \<and>
   fst (toggleBookmark fresh_db ''KJV'' ''Genesis'' 1 1000) = True \<and>
   bookmarks (snd (toggleBookmark fresh_db ''KJV'' ''Genesis'' 1 1000)) =
     [(''KJV|Genesis|1'', \<lparr>b_key = ''KJV|Genesis|1'', b_translation = ''KJV'', b_book = ''Genesis'',
        b_chapter = 1, b_savedAt = 1000\<rparr>)] \<and>
   os_get (bookmarkKey ''KJV'' ''Genesis'' 1)
     (bookmarks (snd (toggleBookmark fresh_db ''KJV'' ''Genesis'' 1 1000))) \<noteq> None \<and>
   fst (toggleBookmark (snd (toggleBookmark fresh_db ''KJV'' ''Genesis'' 1 1000))
     ''KJV'' ''Genesis'' 1 2000) = False \<and>
   bookmarks (snd (toggleBookmark (snd (toggleBookmark fresh_db ''KJV'' ''Genesis'' 1 1000))
     ''KJV'' ''Genesis'' 1 2000)) = [] \<and>
   fst (toggleBookmarks fresh_db
     [(''KJV'', ''Genesis'', 1, 1000), (''KJV'', ''Genesis'', 1, 2000), (''KJV'', ''Genesis'', 1, 3000)])
     = [True, False, True]"
  using C5_toggleBookmark [of "''KJV''" "''Genesis''" 1 fresh_db 1000 1000 2000 3000 "[]"]
    C5_toggleBookmark [of "''KJV''" "''Genesis''" 1
      "snd (toggleBookmark fresh_db ''KJV'' ''Genesis'' 1 1000)" 2000 1000 2000 3000 "[]"]
  by (simp add: fresh_db_def toggleBookmark_def getOne_bookmarks_def putOne_bookmarks_def
      deleteOne_bookmarks_def storeTx_def os_get_def os_delete_def Let_def key_eval)

subsection \<open>Search\<close>

lemma str_includes_iff: "str_includes t q \<longleftrightarrow> (\<exists>pre post. t = pre @ q @ post)"
proof (induction t)
  case Nil
  show ?case by auto
next
  case (Cons c cs)
  have "(\<exists>pre post. c # cs = pre @ q @ post) \<longleftrightarrow>
        (\<exists>post. c # cs = q @ post) \<or> (\<exists>pre post. cs = pre @ q @ post)"
    (is "?L \<longleftrightarrow> ?A \<or> ?B")
  proof
    assume ?L
    then obtain pre post where e: "c # cs = pre @ q @ post" by blast
    show "?A \<or> ?B"
    proof (cases pre)
      case Nil
      with e show ?thesis by auto
    next
      case (Cons p ps)
      with e have "cs = ps @ q @ post" by simp
      then show ?thesis by blast
    qed
  next
    assume "?A \<or> ?B"
    then show ?L
    proof
      assume ?A
      then obtain post where "c # cs = [] @ q @ post" by auto
      then show ?L by blast
    next
      assume ?B
      then obtain pre post where "cs = pre @ q @ post" by blast
      then have "c # cs = (c # pre) @ q @ post" by simp
      then show ?L by blast
    qed
  qed
  moreover have "take (length q) (c # cs) = q \<longleftrightarrow> (\<exists>post. c # cs = q @ post)"
    by (metis append_eq_conv_conj append_take_drop_id)
  ultimately show ?case using Cons.IH by simp
qed

lemma cursor_scan_eq:
  "cursor_scan q limit hits rows =
     (if limit \<le> int (length hits) then hits
      else hits @ take (nat limit - length hits)
             (filter (\<lambda>v. str_includes (toLowerCase (v_text v)) q) rows))"
proof (induction rows arbitrary: hits)
  case Nil
  show ?case by simp
next
  case (Cons v rows)
  show ?case
  proof (cases "limit \<le> int (length hits)")
    case True
    then show ?thesis by simp
  next
    case False
    then have pos: "nat limit - length hits = Suc (nat limit - Suc (length hits))" by linarith
    show ?thesis
    proof (cases "str_includes (toLowerCase (v_text v)) q")
      case True
      have "limit \<le> int (length hits) + 1 \<Longrightarrow> nat limit - Suc (length hits) = 0" by linarith
      with False True pos show ?thesis by (simp add: Cons.IH)
    next
      case no: False
      with False show ?thesis by (simp add: Cons.IH)
    qed
  qed
qed


lemma toLowerCase_Nil_iff: "toLowerCase s = [] \<longleftrightarrow> s = []"
  by (simp add: toLowerCase_def)

text \<open>
  C2. \<^const>\<open>str_includes\<close> is containment. For a query that is not empty after
  trimming, the search opens one read-only transaction and returns the records whose
  lower-cased text contains the lower-cased trimmed query, in the order of the store
  (ascending primary key), cut after the first \<open>limit\<close> of them: the number of results
  is the smaller of the number of matches and the limit (a limit below zero counts as
  zero). For a query that is empty after trimming (also \<^verbatim>\<open>null\<close>) it returns the empty
  list and leaves the database as it is, the transaction log included.
\<close>

theorem C2_searchTextCursor:
  "(str_includes t q \<longleftrightarrow> (\<exists>pre post. t = pre @ q @ post)) \<and>
   (trim (query_text query) \<noteq> [] \<longrightarrow>
      searchTextCursor d s query limit =
        (take (nat limit)
           (filter (\<lambda>v. str_includes (toLowerCase (v_text v)) (toLowerCase (trim (query_text query))))
              (map snd (verses d s))),
         storeTx d (VERSES s) Readonly) \<and>
      length (fst (searchTextCursor d s query limit)) =
        min (length
               (filter (\<lambda>v. str_includes (toLowerCase (v_text v))
                   (toLowerCase (trim (query_text query)))) (map snd (verses d s))))
            (nat limit)) \<and>
   (trim (query_text query) \<noteq> [] \<and> os_ok (verses d s) \<longrightarrow>
      fst (searchTextCursor d s query limit) =
        map snd (take (nat limit) (filter (\<lambda>p. str_includes (toLowerCase (v_text (snd p)))
          (toLowerCase (trim (query_text query)))) (verses d s))) \<and>
      sorted_wrt (<)
        (map fst (take (nat limit) (filter (\<lambda>p. str_includes (toLowerCase (v_text (snd p)))
          (toLowerCase (trim (query_text query)))) (verses d s))))) \<and>
   (trim (query_text query) = [] \<longrightarrow> searchTextCursor d s query limit = ([], d))"
proof (intro conjI impI)
  show "str_includes t q \<longleftrightarrow> (\<exists>pre post. t = pre @ q @ post)"
    by (rule str_includes_iff)
next
  assume ne: "trim (query_text query) \<noteq> []"
  then show eq: "searchTextCursor d s query limit =
        (take (nat limit)
           (filter (\<lambda>v. str_includes (toLowerCase (v_text v)) (toLowerCase (trim (query_text query))))
              (map snd (verses d s))),
         storeTx d (VERSES s) Readonly)"
    by (simp add: searchTextCursor_def Let_def toLowerCase_Nil_iff cursor_scan_eq)
  show "length (fst (searchTextCursor d s query limit)) =
        min (length
               (filter (\<lambda>v. str_includes (toLowerCase (v_text v))
                   (toLowerCase (trim (query_text query)))) (map snd (verses d s))))
            (nat limit)"
    by (simp add: eq)
next
  assume a: "trim (query_text query) \<noteq> [] \<and> os_ok (verses d s)"
  then show "fst (searchTextCursor d s query limit) =
        map snd (take (nat limit) (filter (\<lambda>p. str_includes (toLowerCase (v_text (snd p)))
          (toLowerCase (trim (query_text query)))) (verses d s)))"
    by (simp add: searchTextCursor_def Let_def toLowerCase_Nil_iff cursor_scan_eq
        filter_map take_map comp_def)
  from a have "sorted_wrt (<) (map fst (verses d s))" by (simp add: os_ok_def)
  then show "sorted_wrt (<)
        (map fst (take (nat limit) (filter (\<lambda>p. str_includes (toLowerCase (v_text (snd p)))
          (toLowerCase (trim (query_text query)))) (verses d s))))"
    by (simp add: sorted_wrt_map sorted_wrt_filter sorted_wrt_take)
next
  assume "trim (query_text query) = []"
  then show "searchTextCursor d s query limit = ([], d)"
    by (simp add: searchTextCursor_def toLowerCase_def)
qed

lemma example_search_trim: "trim (query_text (Some ''  GOD '')) = ''GOD''"
  by (simp add: trim_def trimStart_def is_space_def query_text_def)

lemma example_search_blank: "trim (query_text (Some [CHR 0x20, CHR 0x09, CHR 0xA0])) = []"
  by (simp add: trim_def trimStart_def is_space_def query_text_def)

lemma example_search_hits:
  "filter (\<lambda>v. str_includes (toLowerCase (v_text v)) (toLowerCase ''GOD''))
     (map snd (verses example_db KJV_VERSES)) =
   [snd (example_verses ! 0), snd (example_verses ! 2)]"
  by code_simp

theorem C2_searchTextCursor_witness:
  "trim (query_text (Some ''  GOD '')) \<noteq> [] \<and>
   os_ok (verses example_db KJV_VERSES) \<and>
   fst (searchTextCursor example_db KJV_VERSES (Some ''  GOD '') 120) =
     [snd (example_verses ! 0), snd (example_verses ! 2)] \<and>
   fst (searchTextCursor example_db KJV_VERSES (Some ''  GOD '') 1) = [snd (example_verses ! 0)] \<and>
   tx_log (snd (searchTextCursor example_db KJV_VERSES (Some ''  GOD '') 1)) =
     [(VERSES KJV_VERSES, Readonly)] \<and>
   trim (query_text (Some [CHR 0x20, CHR 0x09, CHR 0xA0])) = [] \<and>
   searchTextCursor example_db KJV_VERSES (Some [CHR 0x20, CHR 0x09, CHR 0xA0]) 120 = ([], example_db) \<and>
   searchTextCursor example_db KJV_VERSES None 120 = ([], example_db)"
proof -
  have ne: "trim (query_text (Some ''  GOD '')) \<noteq> []"
    by (simp add: example_search_trim)
  have bl: "trim (query_text (Some [CHR 0x20, CHR 0x09, CHR 0xA0])) = []"
    by (rule example_search_blank)
  have nl: "trim (query_text None) = []"
    by (simp add: query_text_def trim_def trimStart_def)
  have hits:
    "filter (\<lambda>v. str_includes (toLowerCase (v_text v))
        (toLowerCase (trim (query_text (Some ''  GOD ''))))) (map snd (verses example_db KJV_VERSES)) =
     [snd (example_verses ! 0), snd (example_verses ! 2)]"
    by (simp only: example_search_trim example_search_hits)
  have log: "tx_log (storeTx example_db (VERSES KJV_VERSES) Readonly) = [(VERSES KJV_VERSES, Readonly)]"
    by (simp add: storeTx_def example_db_def fresh_db_def)
  from C2_searchTextCursor [of "[]" "[]" "Some ''  GOD ''" example_db KJV_VERSES 120] ne
  have r120: "fst (searchTextCursor example_db KJV_VERSES (Some ''  GOD '') 120) =
      [snd (example_verses ! 0), snd (example_verses ! 2)]"
    by (simp add: hits)
  from C2_searchTextCursor [of "[]" "[]" "Some ''  GOD ''" example_db KJV_VERSES 1] ne
  have r1: "searchTextCursor example_db KJV_VERSES (Some ''  GOD '') 1 =
      ([snd (example_verses ! 0)], storeTx example_db (VERSES KJV_VERSES) Readonly)"
    by (simp add: hits)
  from C2_searchTextCursor [of "[]" "[]" "Some [CHR 0x20, CHR 0x09, CHR 0xA0]" example_db KJV_VERSES 120] bl
  have rb: "searchTextCursor example_db KJV_VERSES (Some [CHR 0x20, CHR 0x09, CHR 0xA0]) 120 =
      ([], example_db)"
    by simp
  from C2_searchTextCursor [of "[]" "[]" None example_db KJV_VERSES 120] nl
  have rn: "searchTextCursor example_db KJV_VERSES None 120 = ([], example_db)"
    by simp
  have ok: "os_ok (verses example_db KJV_VERSES)"
    by (simp add: os_ok_def example_db_def example_verses_def)
  show ?thesis
    using ne ok bl r120 r1 rb rn log by simp
qed

subsection \<open>Import\<close>

lemma os_ok_foldl_put: "os_ok s \<Longrightarrow> os_ok (foldl (\<lambda>s r. os_put (v_key r) r s) s rows)"
  by (induction rows arbitrary: s) (simp_all add: os_ok_put)

lemma map_of_foldl_put:
  "map_of (foldl (\<lambda>s r. os_put (v_key r) r s) s rows) =
     map_of s ++ map_of (rev (map (\<lambda>r. (v_key r, r)) rows))"
proof (induction rows arbitrary: s)
  case Nil
  show ?case by simp
next
  case (Cons r rows)
  have "map_of (os_put (v_key r) r s) ++ map_of (rev (map (\<lambda>r. (v_key r, r)) rows)) =
        map_of s ++ (map_of [(v_key r, r)] ++ map_of (rev (map (\<lambda>r. (v_key r, r)) rows)))"
    by (simp add: map_of_os_put fun_eq_iff map_add_def split: option.splits)
  then show ?case by (simp add: Cons.IH)
qed

lemma foldl_put_idem:
  assumes "os_ok s"
  shows "foldl (\<lambda>s r. os_put (v_key r) r s) (foldl (\<lambda>s r. os_put (v_key r) r s) s rows) rows =
         foldl (\<lambda>s r. os_put (v_key r) r s) s rows"
proof (rule os_ok_unique)
  show "os_ok (foldl (\<lambda>s r. os_put (v_key r) r s) (foldl (\<lambda>s r. os_put (v_key r) r s) s rows) rows)"
    using assms by (intro os_ok_foldl_put)
  show "os_ok (foldl (\<lambda>s r. os_put (v_key r) r s) s rows)"
    using assms by (rule os_ok_foldl_put)
  show "map_of (foldl (\<lambda>s r. os_put (v_key r) r s) (foldl (\<lambda>s r. os_put (v_key r) r s) s rows) rows) =
        map_of (foldl (\<lambda>s r. os_put (v_key r) r s) s rows)"
    by (simp add: map_of_foldl_put fun_eq_iff map_add_def split: option.splits)
qed

lemma verses_putMany:
  "verses (putMany d s rows) = (verses d)(s := foldl (\<lambda>s r. os_put (v_key r) r s) (verses d s) rows)"
  by (simp add: putMany_def storeTx_def)

lemma putMany_idem:
  "os_ok (verses d s) \<Longrightarrow> verses (putMany (putMany d s rows) s rows) = verses (putMany d s rows)"
  by (simp add: verses_putMany foldl_put_idem)

text \<open>
  C6. Importing a source a second time, into the database the first import left, gives
  the same result, the same content of every verse store and the same row count as the
  first import alone. This holds for any collection in key order, the empty one included.
\<close>

theorem C6_import_idempotent:
  "os_ok (verses d s) \<longrightarrow>
     fst (importBibleFromXML (snd (importBibleFromXML d res s)) res s) =
       fst (importBibleFromXML d res s) \<and>
     verses (snd (importBibleFromXML (snd (importBibleFromXML d res s)) res s)) =
       verses (snd (importBibleFromXML d res s)) \<and>
     fst (countStore (snd (importBibleFromXML (snd (importBibleFromXML d res s)) res s)) s) =
       fst (countStore (snd (importBibleFromXML d res s)) s)"
proof
  assume ok: "os_ok (verses d s)"
  have r: "fst (importBibleFromXML d' res s) = fst (importBibleFromXML d res s)" for d'
    by (simp add: importBibleFromXML_def Let_def split: fetch_result.splits)
  have v: "verses (snd (importBibleFromXML (snd (importBibleFromXML d res s)) res s)) =
       verses (snd (importBibleFromXML d res s))"
    using putMany_idem[OF ok]
    by (simp add: importBibleFromXML_def Let_def split: fetch_result.splits)
  show "fst (importBibleFromXML (snd (importBibleFromXML d res s)) res s) =
       fst (importBibleFromXML d res s) \<and>
     verses (snd (importBibleFromXML (snd (importBibleFromXML d res s)) res s)) =
       verses (snd (importBibleFromXML d res s)) \<and>
     fst (countStore (snd (importBibleFromXML (snd (importBibleFromXML d res s)) res s)) s) =
       fst (countStore (snd (importBibleFromXML d res s)) s)"
    using r v by (simp add: countStore_def)
qed

lemma example_rows:
  "collect_rows example_xml =
   [\<lparr>v_key = ''Genesis|1|1'', v_book = ''Genesis'', v_chapter = 1, v_verse = 1,
      v_text = ''In the beginning''\<rparr>,
    \<lparr>v_key = ''Genesis|1|2'', v_book = ''Genesis'', v_chapter = 1, v_verse = 2,
      v_text = ''And the earth''\<rparr>,
    \<lparr>v_key = ''Genesis|1|2'', v_book = ''Genesis'', v_chapter = 1, v_verse = 2,
      v_text = ''was without form''\<rparr>,
    \<lparr>v_key = ''Exodus|1|1'', v_book = ''Exodus'', v_chapter = 1, v_verse = 1,
      v_text = ''Now these are the names''\<rparr>]"
  by code_simp

lemma example_no_parsererror: "querySelector example_xml ''parsererror'' = None"
  by code_simp

lemma example_import:
  "importBibleFromXML d (Response True 200 example_xml) s =
     (Inr \<lparr>r_verses = 4, r_books = 2\<rparr>, putMany d s (collect_rows example_xml))"
  by (simp add: importBibleFromXML_def example_no_parsererror Let_def) (simp add: example_rows)

lemma example_store:
  "foldl (\<lambda>s r. os_put (v_key r) r s) [] (collect_rows example_xml) =
    [(''Exodus|1|1'', \<lparr>v_key = ''Exodus|1|1'', v_book = ''Exodus'', v_chapter = 1, v_verse = 1,
        v_text = ''Now these are the names''\<rparr>),
     (''Genesis|1|1'', \<lparr>v_key = ''Genesis|1|1'', v_book = ''Genesis'', v_chapter = 1, v_verse = 1,
        v_text = ''In the beginning''\<rparr>),
     (''Genesis|1|2'', \<lparr>v_key = ''Genesis|1|2'', v_book = ''Genesis'', v_chapter = 1, v_verse = 2,
        v_text = ''was without form''\<rparr>)]"
  by (simp add: example_rows)

theorem C6_import_idempotent_witness:
  "os_ok (verses fresh_db KJV_VERSES) \<and>
   fst (importBibleFromXML fresh_db (Response True 200 example_xml) KJV_VERSES) =
     Inr \<lparr>r_verses = 4, r_books = 2\<rparr> \<and>
   fst (importBibleFromXML (snd (importBibleFromXML fresh_db (Response True 200 example_xml) KJV_VERSES))
      (Response True 200 example_xml) KJV_VERSES) = Inr \<lparr>r_verses = 4, r_books = 2\<rparr> \<and>
   fst (countStore (snd (importBibleFromXML fresh_db (Response True 200 example_xml) KJV_VERSES))
      KJV_VERSES) = 3 \<and>
   fst (countStore (snd (importBibleFromXML
      (snd (importBibleFromXML fresh_db (Response True 200 example_xml) KJV_VERSES))
      (Response True 200 example_xml) KJV_VERSES)) KJV_VERSES) = 3"
proof -
  have ok: "os_ok (verses fresh_db KJV_VERSES)"
    by (simp add: fresh_db_def os_ok_def)
  have once: "fst (countStore (snd (importBibleFromXML fresh_db (Response True 200 example_xml) KJV_VERSES))
      KJV_VERSES) = 3"
    by (simp add: example_import countStore_def verses_putMany)
       (simp add: fresh_db_def example_store)
  from C6_import_idempotent [of fresh_db KJV_VERSES "Response True 200 example_xml"] ok once
  show ?thesis by (simp add: example_import)
qed

lemma BOOKS_at_mem: "BOOKS_at n = Some b \<Longrightarrow> b \<in> set BOOKS"
  by (auto simp: BOOKS_at_def split: jsnum.splits if_splits)

lemma verse_rows_ok: "b \<in> set BOOKS \<Longrightarrow> c \<noteq> 0 \<Longrightarrow> r \<in> set (verse_rows b c v) \<Longrightarrow> row_ok r"
  by (auto simp: verse_rows_def Let_def row_ok_def row_key_ok_def verseKey_def
      split: jsnum.splits if_splits)

lemma chapter_rows_ok: "b \<in> set BOOKS \<Longrightarrow> r \<in> set (chapter_rows b ch) \<Longrightarrow> row_ok r"
  by (auto simp: chapter_rows_def split: jsnum.splits if_splits dest: verse_rows_ok)

lemma book_rows_ok:
  assumes "r \<in> set (book_rows bk)"
  shows "row_ok r"
proof (cases "BOOKS_at (Number_js (getAttribute bk ''number''))")
  case None
  with assms show ?thesis by (simp add: book_rows_def)
next
  case (Some b)
  then have "b \<in> set BOOKS" by (rule BOOKS_at_mem)
  moreover from assms Some obtain ch where "r \<in> set (chapter_rows b ch)"
    by (auto simp: book_rows_def split: if_splits)
  ultimately show ?thesis by (rule chapter_rows_ok)
qed

lemma collect_rows_ok: "r \<in> set (collect_rows xml) \<Longrightarrow> row_ok r"
  by (auto simp: collect_rows_def dest: book_rows_ok)

















text \<open>
  C7. When the parsed document holds a \<^verbatim>\<open>parsererror\<close> element (the parser's report of a
  text that is not well-formed), the import fails with \<^const>\<open>MalformedSource\<close>; when it
  holds none and no row is collected, the import fails with \<^const>\<open>EmptySource\<close>. Whenever
  the import fails, the database is the one before the import: no store has changed
  and no transaction was opened.
\<close>

theorem C7_import_failures:
  "(querySelector xml ''parsererror'' \<noteq> None \<longrightarrow>
      importBibleFromXML d (Response True status xml) s = (Inl MalformedSource, d)) \<and>
   (querySelector xml ''parsererror'' = None \<and> collect_rows xml = [] \<longrightarrow>
      importBibleFromXML d (Response True status xml) s = (Inl EmptySource, d)) \<and>
   (fst (importBibleFromXML d res s) = Inl e \<longrightarrow> snd (importBibleFromXML d res s) = d)"
  by (simp add: importBibleFromXML_def Let_def split: fetch_result.splits)

lemma example_malformed: "querySelector example_xml_malformed ''parsererror'' \<noteq> None"
  by code_simp

lemma example_no_verses:
  "querySelector example_xml_no_verses ''parsererror'' = None"
  "collect_rows example_xml_no_verses = []"
  by code_simp+

theorem C7_import_failures_witness:
  "querySelector example_xml_malformed ''parsererror'' \<noteq> None \<and>
   importBibleFromXML example_db (Response True 200 example_xml_malformed) KJV_VERSES =
     (Inl MalformedSource, example_db) \<and>
   querySelector example_xml_no_verses ''parsererror'' = None \<and>
   collect_rows example_xml_no_verses = [] \<and>
   importBibleFromXML example_db (Response True 200 example_xml_no_verses) KJV_VERSES =
     (Inl EmptySource, example_db) \<and>
   fst (importBibleFromXML example_db (Response False 404 example_xml) KJV_VERSES) =
     Inl (FetchFailed 404) \<and>
   snd (importBibleFromXML example_db (Response False 404 example_xml) KJV_VERSES) = example_db"
proof -
  have f: "fst (importBibleFromXML example_db (Response False 404 example_xml) KJV_VERSES) =
     Inl (FetchFailed 404)"
    by (simp add: importBibleFromXML_def)
  from C7_import_failures [of example_xml_malformed example_db 200 KJV_VERSES
      "Response True 200 example_xml_malformed" MalformedSource]
    C7_import_failures [of example_xml_no_verses example_db 200 KJV_VERSES
      "Response False 404 example_xml" "FetchFailed 404"]
    example_malformed example_no_verses f
  show ?thesis by simp
qed

subsection \<open>Chapters\<close>

lemma verses_ok_put:
  assumes "verses_ok s" "row_key_ok r"
  shows "verses_ok (os_put (v_key r) r s)"
proof -
  have "list_all (\<lambda>(k, r). k = v_key r \<and> row_key_ok r) (os_put (v_key r) r s)"
    using assms set_os_put_subset[of "v_key r" r s]
    unfolding verses_ok_def list_all_iff by fastforce
  with assms show ?thesis by (simp add: verses_ok_def os_ok_put)
qed

lemma verses_ok_foldl_put:
  "verses_ok s \<Longrightarrow> list_all row_key_ok rows \<Longrightarrow>
   verses_ok (foldl (\<lambda>s r. os_put (v_key r) r s) s rows)"
  by (induction rows arbitrary: s) (simp_all add: verses_ok_put)

lemma keyed_rows_keys:
  "list_all (\<lambda>(k, r). k = v_key r \<and> row_key_ok r) s \<Longrightarrow> map fst s = map v_key (map snd s)"
  by (induction s) auto

lemma verses_ok_keys: "verses_ok s \<Longrightarrow> map fst s = map v_key (map snd s)"
  by (simp only: verses_ok_def keyed_rows_keys)

lemma verses_ok_distinct_keys:
  assumes "verses_ok s"
  shows "distinct (map v_key (map snd s))"
proof -
  from assms have "distinct (map fst s)" by (simp add: verses_ok_def os_ok_distinct)
  then show ?thesis unfolding verses_ok_keys[OF assms] .
qed

lemma verses_ok_row_key: "verses_ok s \<Longrightarrow> r \<in> snd ` set s \<Longrightarrow> row_key_ok r"
  by (auto simp: verses_ok_def list_all_iff)

lemma chapter_strict:
  assumes "verses_ok (verses d s)"
  shows "sorted_wrt (<) (map v_verse (fst (getChapterFromStore d s b c)))"
proof -
  let ?all = "map snd (verses d s)"
  let ?xs = "filter (\<lambda>r. v_book r = b \<and> v_chapter r = c) ?all"
  have res: "fst (getChapterFromStore d s b c) = sort_key v_verse ?xs"
    by (simp add: getChapterFromStore_def getAllByIndex_by_book_chapter_def)
  have dk: "distinct (map v_key ?all)"
    using assms by (rule verses_ok_distinct_keys)
  then have "distinct ?all \<and> inj_on v_key (set ?all)"
    by (rule distinct_map[THEN iffD1])
  then have dall: "distinct ?all" and inj: "inj_on v_key (set ?all)"
    by blast+
  have "inj_on v_verse (set ?xs)"
  proof (rule inj_onI)
    fix r r' assume r: "r \<in> set ?xs" and r': "r' \<in> set ?xs" and e: "v_verse r = v_verse r'"
    from r r' assms have "row_key_ok r" "row_key_ok r'"
      by (auto intro: verses_ok_row_key)
    with r r' e have "v_key r = v_key r'" by (simp add: row_key_ok_def)
    moreover from r r' have "r \<in> set ?all" "r' \<in> set ?all" by simp_all
    ultimately show "r = r'" using inj by (rule_tac inj_onD)
  qed
  moreover from dall have "distinct ?xs" by simp
  ultimately have "distinct (map v_verse (sort_key v_verse ?xs))"
    by (simp add: distinct_map)
  moreover have "sorted (map v_verse (sort_key v_verse ?xs))"
    by (rule sorted_sort_key)
  ultimately show ?thesis
    by (simp add: res strict_sorted_iff)
qed

lemma chapter_set:
  "set (fst (getChapterFromStore d s b c)) =
     {r \<in> snd ` set (verses d s). v_book r = b \<and> v_chapter r = c}"
  by (auto simp: getChapterFromStore_def getAllByIndex_by_book_chapter_def)

lemma verses_ok_import:
  assumes "verses_ok (verses d s)"
  shows "verses_ok (verses (snd (importBibleFromXML d res s')) s)"
proof -
  have "list_all row_key_ok (collect_rows xml)" for xml
    using collect_rows_ok by (auto simp: list_all_iff row_ok_def)
  then have "verses_ok (verses (putMany d s' (collect_rows xml)) s)" for xml
    using assms by (cases "s = s'") (simp_all add: verses_putMany verses_ok_foldl_put)
  with assms show ?thesis
    by (simp add: importBibleFromXML_def Let_def split: fetch_result.splits)
qed

lemma putMany_order:
  assumes ok: "os_ok (verses d s)"
    and d1: "distinct (map v_key rows)" and d2: "distinct (map v_key rows')"
    and e: "set rows = set rows'"
  shows "verses (putMany d s rows) = verses (putMany d s rows')"
proof -
  let ?kv = "\<lambda>rs. rev (map (\<lambda>r. (v_key r, r)) rs)"
  have "distinct (map fst (?kv rows))" "distinct (map fst (?kv rows'))"
    using d1 d2 by (simp_all add: rev_map[symmetric] comp_def)
  moreover have "set (?kv rows) = set (?kv rows')"
    using e by simp
  ultimately have m: "map_of (?kv rows) = map_of (?kv rows')"
    by (simp add: map_of_inject_set)
  have "foldl (\<lambda>s r. os_put (v_key r) r s) (verses d s) rows =
        foldl (\<lambda>s r. os_put (v_key r) r s) (verses d s) rows'"
  proof (rule os_ok_unique)
    show "os_ok (foldl (\<lambda>s r. os_put (v_key r) r s) (verses d s) rows)"
      using ok by (rule os_ok_foldl_put)
    show "os_ok (foldl (\<lambda>s r. os_put (v_key r) r s) (verses d s) rows')"
      using ok by (rule os_ok_foldl_put)
    show "map_of (foldl (\<lambda>s r. os_put (v_key r) r s) (verses d s) rows) =
          map_of (foldl (\<lambda>s r. os_put (v_key r) r s) (verses d s) rows')"
      by (simp only: map_of_foldl_put m)
  qed
  then show ?thesis by (simp add: verses_putMany)
qed

lemma getChapter_order:
  assumes "os_ok (verses d s)" "distinct (map v_key rows)" "distinct (map v_key rows')"
    "set rows = set rows'"
  shows "fst (getChapterFromStore (putMany d s rows) s b c) =
         fst (getChapterFromStore (putMany d s rows') s b c)"
  using putMany_order[OF assms]
  by (simp add: getChapterFromStore_def getAllByIndex_by_book_chapter_def)

text \<open>
  C4. In a verse store as the importer's writes leave it (a state that every import
  keeps), the chapter fetch returns the verses in strictly ascending verse number, also
  right after rows were put in any order; two orders of the same rows (no two sharing a
  key) give the same result. The result holds exactly the records of that book and
  chapter, and when there is none it is the empty list.
\<close>

theorem C4_getChapterFromStore:
  "(verses_ok (verses d s) \<longrightarrow>
      verses_ok (verses (snd (importBibleFromXML d res s')) s) \<and>
      sorted_wrt (<) (map v_verse (fst (getChapterFromStore d s b c)))) \<and>
   (verses_ok (verses d s) \<and> list_all row_key_ok rows \<longrightarrow>
      sorted_wrt (<) (map v_verse (fst (getChapterFromStore (putMany d s rows) s b c)))) \<and>
   (os_ok (verses d s) \<and> distinct (map v_key rows) \<and> distinct (map v_key rows') \<and>
    set rows = set rows' \<longrightarrow>
      fst (getChapterFromStore (putMany d s rows) s b c) =
      fst (getChapterFromStore (putMany d s rows') s b c)) \<and>
   set (fst (getChapterFromStore d s b c)) =
     {r \<in> snd ` set (verses d s). v_book r = b \<and> v_chapter r = c} \<and>
   (filter (\<lambda>r. v_book r = b \<and> v_chapter r = c) (map snd (verses d s)) = [] \<longrightarrow>
      getChapterFromStore d s b c = ([], storeTx d (VERSES s) Readonly))"
proof (intro conjI impI)
  assume "verses_ok (verses d s)"
  then show "verses_ok (verses (snd (importBibleFromXML d res s')) s)"
    by (rule verses_ok_import)
next
  assume "verses_ok (verses d s)"
  then show "sorted_wrt (<) (map v_verse (fst (getChapterFromStore d s b c)))"
    by (rule chapter_strict)
next
  assume "verses_ok (verses d s) \<and> list_all row_key_ok rows"
  then have "verses_ok (verses (putMany d s rows) s)"
    by (simp add: verses_putMany verses_ok_foldl_put)
  then show "sorted_wrt (<) (map v_verse (fst (getChapterFromStore (putMany d s rows) s b c)))"
    by (rule chapter_strict)
next
  assume "os_ok (verses d s) \<and> distinct (map v_key rows) \<and> distinct (map v_key rows') \<and>
    set rows = set rows'"
  then show "fst (getChapterFromStore (putMany d s rows) s b c) =
      fst (getChapterFromStore (putMany d s rows') s b c)"
    by (intro getChapter_order) simp_all
next
  show "set (fst (getChapterFromStore d s b c)) =
     {r \<in> snd ` set (verses d s). v_book r = b \<and> v_chapter r = c}"
    by (rule chapter_set)
next
  assume "filter (\<lambda>r. v_book r = b \<and> v_chapter r = c) (map snd (verses d s)) = []"
  then show "getChapterFromStore d s b c = ([], storeTx d (VERSES s) Readonly)"
    by (simp add: getChapterFromStore_def getAllByIndex_by_book_chapter_def)
qed

lemma example_genesis_ok: "list_all row_key_ok example_genesis_rows"
  by (simp add: example_genesis_rows_def row_key_ok_def key_eval)

lemma example_genesis_store:
  "map fst (verses (putMany fresh_db KJV_VERSES example_genesis_rows) KJV_VERSES) =
     [''Genesis|1|10'', ''Genesis|1|2'', ''Genesis|1|9'', ''Genesis|2|1'']"
  by (simp add: verses_putMany fresh_db_def example_genesis_rows_def)

lemma example_genesis_chapter:
  "map v_verse (fst (getChapterFromStore (putMany fresh_db KJV_VERSES example_genesis_rows)
      KJV_VERSES ''Genesis'' 1)) = [2, 9, 10]"
  by (simp add: getChapterFromStore_def getAllByIndex_by_book_chapter_def verses_putMany
      fresh_db_def example_genesis_rows_def)

theorem C4_getChapterFromStore_witness:
  "verses_ok (verses fresh_db KJV_VERSES) \<and>
   list_all row_key_ok example_genesis_rows \<and>
   map fst (verses (putMany fresh_db KJV_VERSES example_genesis_rows) KJV_VERSES) =
     [''Genesis|1|10'', ''Genesis|1|2'', ''Genesis|1|9'', ''Genesis|2|1''] \<and>
   map v_verse (fst (getChapterFromStore (putMany fresh_db KJV_VERSES example_genesis_rows)
      KJV_VERSES ''Genesis'' 1)) = [2, 9, 10] \<and>
   sorted_wrt (<) (map v_verse (fst (getChapterFromStore
      (putMany fresh_db KJV_VERSES example_genesis_rows) KJV_VERSES ''Genesis'' 1))) \<and>
   distinct (map v_key example_genesis_rows) \<and>
   map v_verse (fst (getChapterFromStore (putMany fresh_db KJV_VERSES (rev example_genesis_rows))
      KJV_VERSES ''Genesis'' 1)) = [2, 9, 10] \<and>
   filter (\<lambda>r. v_book r = ''Exodus'' \<and> v_chapter r = 1) (map snd (verses fresh_db KJV_VERSES)) = [] \<and>
   fst (getChapterFromStore fresh_db KJV_VERSES ''Exodus'' 1) = []"
proof -
  have ok: "verses_ok (verses fresh_db KJV_VERSES)"
    by (simp add: verses_ok_def os_ok_def fresh_db_def)
  have em: "filter (\<lambda>r. v_book r = ''Exodus'' \<and> v_chapter r = 1) (map snd (verses fresh_db KJV_VERSES)) = []"
    by (simp add: fresh_db_def)
  have os: "os_ok (verses fresh_db KJV_VERSES)"
    by (simp add: os_ok_def fresh_db_def)
  have di: "distinct (map v_key example_genesis_rows)"
    "distinct (map v_key (rev example_genesis_rows))"
    by (simp_all add: example_genesis_rows_def)
  from C4_getChapterFromStore [of fresh_db KJV_VERSES Rejected KJV_VERSES "''Genesis''" 1
      example_genesis_rows "rev example_genesis_rows"]
    C4_getChapterFromStore [of fresh_db KJV_VERSES Rejected KJV_VERSES "''Exodus''" 1
      example_genesis_rows "rev example_genesis_rows"]
    ok os di em example_genesis_ok example_genesis_store example_genesis_chapter
  show ?thesis by simp
qed

subsection \<open>Verse styles\<close>

lemma st_key_apply_patch: "st_key (apply_patch c p) = st_key c"
  by (simp add: apply_patch_def)

lemma apply_patch_updatedAt:
  "apply_patch (c\<lparr>st_updatedAt := t\<rparr>) p = (apply_patch c p)\<lparr>st_updatedAt := t\<rparr>"
  by (simp add: apply_patch_def cong: option.case_cong)

lemma upsert_selected:
  assumes "a_selected st = Some v"
  shows "upsertSelectedStyle st patch t1 t2 =
     st\<lparr>a_db := saveVerseStyle (a_db st) ((apply_patch (current_style st v) patch)\<lparr>st_updatedAt := Some t1\<rparr>) t2,
        a_stylesMap := (a_stylesMap st)
          (verseStyleKey (a_translation st) (v_book v) (v_chapter v) (v_verse v) \<mapsto>
             (apply_patch (current_style st v) patch)\<lparr>st_updatedAt := Some t1\<rparr>),
        a_verses :=
          map (\<lambda>x. if v_book x = v_book v \<and> v_chapter x = v_chapter v \<and> v_verse x = v_verse v
                    then x\<lparr>m_style := Some ((apply_patch (current_style st v) patch)\<lparr>st_updatedAt := Some t1\<rparr>)\<rparr>
                    else x) (a_verses st),
        a_selected := Some (v\<lparr>m_style := Some ((apply_patch (current_style st v) patch)\<lparr>st_updatedAt := Some t1\<rparr>)\<rparr>)\<rparr>"
  using assms by (simp add: upsertSelectedStyle_def current_style_def Let_def)

lemma verse_styles_save:
  "verse_styles (saveVerseStyle d r t) = os_put (st_key r) (r\<lparr>st_updatedAt := Some t\<rparr>) (verse_styles d)"
  by (simp add: saveVerseStyle_def putOne_verse_styles_def storeTx_def)

lemma upsert_store:
  assumes "a_selected st = Some v"
  shows "verse_styles (a_db (upsertSelectedStyle st patch t1 t2)) =
     os_put (st_key (current_style st v))
       ((apply_patch (current_style st v) patch)\<lparr>st_updatedAt := Some t2\<rparr>)
       (verse_styles (a_db st))"
  by (simp add: upsert_selected[OF assms] verse_styles_save st_key_apply_patch)

lemma upsert_current:
  assumes "a_selected st = Some v"
  shows "current_style (upsertSelectedStyle st patch t1 t2)
           (v\<lparr>m_style := Some ((apply_patch (current_style st v) patch)\<lparr>st_updatedAt := Some t1\<rparr>)\<rparr>) =
         (apply_patch (current_style st v) patch)\<lparr>st_updatedAt := Some t1\<rparr>"
  by (simp add: upsert_selected[OF assms] current_style_def Let_def)

lemma upsert_twice_store:
  assumes sel: "a_selected st = Some v"
    and k: "k = verseStyleKey (a_translation st) (v_book v) (v_chapter v) (v_verse v)"
    and key: "st_key (current_style st v) = k"
  shows "os_get k (verse_styles (a_db
           (upsertSelectedStyle (upsertSelectedStyle st p1 t1 t2) p2 t3 t4))) =
         Some ((apply_patch (apply_patch (current_style st v) p1) p2)\<lparr>st_updatedAt := Some t4\<rparr>)"
proof -
  let ?n1 = "(apply_patch (current_style st v) p1)\<lparr>st_updatedAt := Some t1\<rparr>"
  let ?st1 = "upsertSelectedStyle st p1 t1 t2"
  have sel1: "a_selected ?st1 = Some (v\<lparr>m_style := Some ?n1\<rparr>)"
    by (simp add: upsert_selected[OF sel])
  have cur1: "current_style ?st1 (v\<lparr>m_style := Some ?n1\<rparr>) = ?n1"
    by (rule upsert_current[OF sel])
  have "verse_styles (a_db (upsertSelectedStyle ?st1 p2 t3 t4)) =
     os_put (st_key ?n1) ((apply_patch ?n1 p2)\<lparr>st_updatedAt := Some t4\<rparr>) (verse_styles (a_db ?st1))"
    using upsert_store[OF sel1, of p2 t3 t4] by (simp only: cur1)
  then show ?thesis
    by (simp add: os_get_put st_key_apply_patch key apply_patch_updatedAt)
qed

lemma foldl_styles_keys:
  "\<forall>k r. m k = Some r \<longrightarrow> st_key r = k \<Longrightarrow>
   \<forall>k r. foldl (\<lambda>m r. m(st_key r \<mapsto> r)) m rows k = Some r \<longrightarrow> st_key r = k"
proof (induction rows arbitrary: m)
  case Nil
  then show ?case unfolding foldl_Nil .
next
  case (Cons a rows)
  have "\<forall>k r. (m(st_key a \<mapsto> a)) k = Some r \<longrightarrow> st_key r = k"
    using Cons.prems by (metis fun_upd_apply option.inject)
  then show ?case unfolding foldl_Cons by (rule Cons.IH)
qed

lemma getStylesForChapter_keys:
  assumes "fst (getStylesForChapter d t b c) k = Some r"
  shows "st_key r = k"
proof -
  let ?rows = "filter (\<lambda>r. st_translation r = t \<and> st_book r = b \<and> st_chapter r = c)
      (map snd (verse_styles d))"
  have "foldl (\<lambda>m r. m(st_key r \<mapsto> r)) Map.empty ?rows k = Some r"
    using assms by (simp add: getStylesForChapter_def getAllByIndex_by_ref_def)
  moreover have "\<forall>k r. foldl (\<lambda>m r. m(st_key r \<mapsto> r)) Map.empty ?rows k = Some r \<longrightarrow> st_key r = k"
    by (rule foldl_styles_keys) (simp only: option.distinct simp_thms)
  ultimately show ?thesis by blast
qed

text \<open>
  C3. With a verse selected and \<open>k\<close> its style key: when the styles map has no record
  at \<open>k\<close>, the upsert writes at \<open>k\<close> the default record (color none, no underline, not
  bold, not bookmarked, empty note, note type study, not favorite) with the patch merged
  over it and \<open>updatedAt\<close> set to the clock reading at the write. When the record the
  upsert starts from is keyed \<open>k\<close> (as the default is), two upserts in a row leave at
  \<open>k\<close> that record with the first patch and then the second merged over it; after the
  patches \<^verbatim>\<open>{bookmarked: true}\<close> and \<^verbatim>\<open>{note: "x"}\<close> the record read back is bookmarked
  and its note is x.
\<close>

theorem C3_upsertSelectedStyle:
  assumes "a_selected st = Some v"
    and "k = verseStyleKey (a_translation st) (v_book v) (v_chapter v) (v_verse v)"
  shows
    "(a_stylesMap st k = None \<longrightarrow>
        os_get k (verse_styles (a_db (upsertSelectedStyle st patch t1 t2))) =
          Some ((apply_patch
                   \<lparr>st_key = k, st_translation = a_translation st, st_book = v_book v,
                    st_chapter = v_chapter v, st_verse = v_verse v, st_color = ''none'',
                    st_underline = False, st_bold = False, st_bookmarked = False, st_note = [],
                    st_noteType = ''study'', st_noteFavorite = False, st_updatedAt = None\<rparr>
                   patch)\<lparr>st_updatedAt := Some t2\<rparr>)) \<and>
     (st_key (current_style st v) = k \<longrightarrow>
        os_get k (verse_styles (a_db
          (upsertSelectedStyle (upsertSelectedStyle st p1 t1 t2) p2 t3 t4))) =
          Some ((apply_patch (apply_patch (current_style st v) p1) p2)\<lparr>st_updatedAt := Some t4\<rparr>) \<and>
        (\<exists>r. os_get k (verse_styles (a_db
                (upsertSelectedStyle
                   (upsertSelectedStyle st (no_patch\<lparr>p_bookmarked := Some True\<rparr>) t1 t2)
                   (no_patch\<lparr>p_note := Some ''x''\<rparr>) t3 t4))) = Some r \<and>
             st_bookmarked r = True \<and> st_note r = ''x'' \<and> st_updatedAt r = Some t4)) \<and>
     (a_stylesMap st k = None \<longrightarrow> st_key (current_style st v) = k)"
proof (intro conjI impI)
  assume n: "a_stylesMap st k = None"
  then have cur: "current_style st v =
      default_style k (a_translation st) (v_book v) (v_chapter v) (v_verse v)"
    using assms(2) by (simp add: current_style_def)
  show "st_key (current_style st v) = k"
    by (simp add: cur default_style_def)
  show "os_get k (verse_styles (a_db (upsertSelectedStyle st patch t1 t2))) =
          Some ((apply_patch
                   \<lparr>st_key = k, st_translation = a_translation st, st_book = v_book v,
                    st_chapter = v_chapter v, st_verse = v_verse v, st_color = ''none'',
                    st_underline = False, st_bold = False, st_bookmarked = False, st_note = [],
                    st_noteType = ''study'', st_noteFavorite = False, st_updatedAt = None\<rparr>
                   patch)\<lparr>st_updatedAt := Some t2\<rparr>)"
    by (simp add: upsert_store[OF assms(1)] cur os_get_put) (simp add: default_style_def)
next
  assume key: "st_key (current_style st v) = k"
  show "os_get k (verse_styles (a_db
          (upsertSelectedStyle (upsertSelectedStyle st p1 t1 t2) p2 t3 t4))) =
          Some ((apply_patch (apply_patch (current_style st v) p1) p2)\<lparr>st_updatedAt := Some t4\<rparr>)"
    using assms key by (rule upsert_twice_store)
  have "os_get k (verse_styles (a_db
                (upsertSelectedStyle
                   (upsertSelectedStyle st (no_patch\<lparr>p_bookmarked := Some True\<rparr>) t1 t2)
                   (no_patch\<lparr>p_note := Some ''x''\<rparr>) t3 t4))) =
        Some ((apply_patch (apply_patch (current_style st v) (no_patch\<lparr>p_bookmarked := Some True\<rparr>))
                 (no_patch\<lparr>p_note := Some ''x''\<rparr>))\<lparr>st_updatedAt := Some t4\<rparr>)"
    using assms key by (rule upsert_twice_store)
  then show "\<exists>r. os_get k (verse_styles (a_db
                (upsertSelectedStyle
                   (upsertSelectedStyle st (no_patch\<lparr>p_bookmarked := Some True\<rparr>) t1 t2)
                   (no_patch\<lparr>p_note := Some ''x''\<rparr>) t3 t4))) = Some r \<and>
             st_bookmarked r = True \<and> st_note r = ''x'' \<and> st_updatedAt r = Some t4"
    by (simp add: apply_patch_def no_patch_def)
qed


lemma example_state_selected:
  "a_selected example_state =
     Some \<lparr>v_key = ''Genesis|1|1'', v_book = ''Genesis'', v_chapter = 1, v_verse = 1,
       v_text = ''In the beginning'', m_style = None\<rparr>"
  by code_simp

lemma example_state_fields:
  "a_translation example_state = ''KJV''"
  "a_stylesMap example_state = Map.empty"
  "verse_styles (a_db example_state) = []"
  by (simp_all add: example_state_def Let_def example_import putMany_def storeTx_def fresh_db_def)

theorem C3_upsertSelectedStyle_witness:
  "a_selected example_state =
     Some \<lparr>v_key = ''Genesis|1|1'', v_book = ''Genesis'', v_chapter = 1, v_verse = 1,
       v_text = ''In the beginning'', m_style = None\<rparr> \<and>
   ''KJV|Genesis|1|1'' = verseStyleKey (a_translation example_state) ''Genesis'' 1 1 \<and>
   a_stylesMap example_state ''KJV|Genesis|1|1'' = None \<and>
   os_get ''KJV|Genesis|1|1''
     (verse_styles (a_db (upsertSelectedStyle example_state (no_patch\<lparr>p_bold := Some True\<rparr>) 10 11))) =
     Some \<lparr>st_key = ''KJV|Genesis|1|1'', st_translation = ''KJV'', st_book = ''Genesis'',
       st_chapter = 1, st_verse = 1, st_color = ''none'', st_underline = False, st_bold = True,
       st_bookmarked = False, st_note = [], st_noteType = ''study'', st_noteFavorite = False,
       st_updatedAt = Some 11\<rparr> \<and>
   os_get ''KJV|Genesis|1|1''
     (verse_styles (a_db (upsertSelectedStyle
        (upsertSelectedStyle example_state (no_patch\<lparr>p_bookmarked := Some True\<rparr>) 10 11)
        (no_patch\<lparr>p_note := Some ''x''\<rparr>) 20 21))) =
     Some \<lparr>st_key = ''KJV|Genesis|1|1'', st_translation = ''KJV'', st_book = ''Genesis'',
       st_chapter = 1, st_verse = 1, st_color = ''none'', st_underline = False, st_bold = False,
       st_bookmarked = True, st_note = ''x'', st_noteType = ''study'', st_noteFavorite = False,
       st_updatedAt = Some 21\<rparr>"
proof -
  let ?v = "\<lparr>v_key = ''Genesis|1|1'', v_book = ''Genesis'', v_chapter = 1, v_verse = 1,
       v_text = ''In the beginning'', m_style = None\<rparr>"
  have k: "''KJV|Genesis|1|1'' = verseStyleKey (a_translation example_state) (v_book ?v) (v_chapter ?v) (v_verse ?v)"
    by (simp add: example_state_fields key_eval)
  have n: "a_stylesMap example_state ''KJV|Genesis|1|1'' = None"
    by (simp add: example_state_fields)
  have c: "current_style example_state ?v =
      default_style ''KJV|Genesis|1|1'' ''KJV'' ''Genesis'' 1 1"
    by (simp add: current_style_def example_state_fields key_eval)
  note t = C3_upsertSelectedStyle [OF example_state_selected k,
      of "no_patch\<lparr>p_bold := Some True\<rparr>" 10 11
         "no_patch\<lparr>p_bookmarked := Some True\<rparr>" "no_patch\<lparr>p_note := Some ''x''\<rparr>" 20 21]
  from t n c example_state_selected k show ?thesis
    by (simp add: example_state_fields apply_patch_def no_patch_def default_style_def)
qed

subsection \<open>The key of a verse and the key of its style\<close>













subsection \<open>What the importer skips, and the verse text\<close>




















end
